theory Spec2Isabelle
  imports Complex_Main
begin

section \<open>Python strings\<close>

text \<open>
  A Python \<open>str\<close> is a sequence of Unicode code points, and \<open>len\<close>, slicing and
  \<open>strip\<close> count code points. The source holds Chinese literals, so a string is
  modelled as the list of its code points; \<open>str\<close> embeds an ASCII literal.
\<close>

type_synonym pystr = "nat list"

definition str :: "string \<Rightarrow> pystr" where
  "str s = map of_char s"

text \<open>\<open>str.isspace\<close> of one character (the table of \<open>Py_UNICODE_ISSPACE\<close>); the
  regular-expression class \<open>\s\<close> on \<open>str\<close> patterns is the same set.\<close>

definition isspace :: "nat \<Rightarrow> bool" where
  "isspace c \<longleftrightarrow>
     (9 \<le> c \<and> c \<le> 13) \<or> (28 \<le> c \<and> c \<le> 32) \<or> c = 133 \<or> c = 160 \<or> c = 5760 \<or>
     (8192 \<le> c \<and> c \<le> 8202) \<or> c = 8232 \<or> c = 8233 \<or> c = 8239 \<or> c = 8287 \<or> c = 12288"

text \<open>\<open>s.strip()\<close> and \<open>s.strip(chars)\<close>.\<close>

definition strip_by :: "(nat \<Rightarrow> bool) \<Rightarrow> pystr \<Rightarrow> pystr" where
  "strip_by P s = rev (dropWhile P (rev (dropWhile P s)))"

definition strip :: "pystr \<Rightarrow> pystr" where
  "strip s = strip_by isspace s"

definition strip_chars :: "pystr \<Rightarrow> pystr \<Rightarrow> pystr" where
  "strip_chars cs s = strip_by (\<lambda>c. c \<in> set cs) s"

definition startswith :: "pystr \<Rightarrow> pystr \<Rightarrow> bool" where
  "startswith s p \<longleftrightarrow> take (length p) s = p"

definition endswith :: "pystr \<Rightarrow> pystr \<Rightarrow> bool" where
  "endswith s p \<longleftrightarrow> length p \<le> length s \<and> drop (length s - length p) s = p"

text \<open>\<open>p in s\<close> for strings.\<close>

fun contains :: "pystr \<Rightarrow> pystr \<Rightarrow> bool" where
  "contains [] p = (p = [])"
| "contains (c # s) p = (startswith (c # s) p \<or> contains s p)"

text \<open>\<open>s.split(sep)\<close> for a one-character separator: never the empty list.\<close>

fun split :: "nat \<Rightarrow> pystr \<Rightarrow> pystr list" where
  "split sep [] = [[]]"
| "split sep (c # s) =
     (if c = sep then [] # split sep s
      else (case split sep s of [] \<Rightarrow> [[c]] | p # ps \<Rightarrow> (c # p) # ps))"

text \<open>
  \<open>s.lower()\<close>, on the letters A to Z. The source uses \<open>lower\<close> only to look for the
  phrase \<open>unable to answer\<close>; the characters outside ASCII that Python lowers into ASCII
  give \<open>k\<close> and \<open>i\<close>, which the phrase does not contain.
\<close>

definition lower :: "pystr \<Rightarrow> pystr" where
  "lower s = map (\<lambda>c. if 65 \<le> c \<and> c \<le> 90 then c + 32 else c) s"

text \<open>\<open>re.sub(r'\s+', ' ', s)\<close>: every maximal run of whitespace becomes one space.\<close>

fun collapse_ws :: "pystr \<Rightarrow> pystr" where
  "collapse_ws [] = []"
| "collapse_ws [c] = (if isspace c then [32] else [c])"
| "collapse_ws (c # d # s) =
     (if isspace c then (if isspace d then collapse_ws (d # s) else 32 # collapse_ws (d # s))
      else c # collapse_ws (d # s))"

text \<open>The literals of the source.\<close>

definition is_blank :: pystr where
  "is_blank = str ''is_blank''"

definition query_failed :: pystr where
  \<comment> \<open>the failure marker, U+67E5 U+8BE2 U+5931 U+8D25 (Chinese for "query failed")\<close>
  "query_failed = [0x67E5, 0x8BE2, 0x5931, 0x8D25]"

definition format_failed :: pystr where
  \<comment> \<open>the reason given for a format failure (Chinese for "format parsing failed")\<close>
  "format_failed = [0x683C, 0x5F0F, 0x89E3, 0x6790, 0x5931, 0x8D25]"

definition parse_failed :: pystr where
  \<comment> \<open>the reason when no error was recorded (Chinese for "parsing failed")\<close>
  "parse_failed = [0x89E3, 0x6790, 0x5931, 0x8D25]"

definition last_response_label :: pystr where
  \<comment> \<open>Chinese for "last response", then a colon and a space\<close>
  "last_response_label = [0x6700, 0x540E, 0x54CD, 0x5E94, 58, 32]"

definition no_response :: pystr where
  \<comment> \<open>the placeholder (Chinese for "no response")\<close>
  "no_response = [0x65E0, 0x54CD, 0x5E94]"

definition unable_sentence :: pystr where
  "unable_sentence = str ''Unable to answer with confidence based on the provided documents.''"

section \<open>The \<open>json\<close> module\<close>

text \<open>
  A decoded JSON value. A number keeps its literal text (how Python turns it into an
  \<open>int\<close> or a \<open>float\<close> is not modelled); an object keeps its members in the order
  read, and \<open>dict_get\<close> gives the last member of a name, as building a \<open>dict\<close> does.
\<close>

datatype json =
    JNull
  | JBool bool
  | JNumber pystr
  | JString pystr
  | JArray "json list"
  | JObject "(pystr \<times> json) list"

definition dict_get :: "(pystr \<times> json) list \<Rightarrow> pystr \<Rightarrow> json \<Rightarrow> json" where
  "dict_get d k dflt = (case map_of (rev d) k of None \<Rightarrow> dflt | Some v \<Rightarrow> v)"

definition json_ws :: "nat \<Rightarrow> bool" where
  "json_ws c \<longleftrightarrow> c = 32 \<or> c = 9 \<or> c = 10 \<or> c = 13"

definition skip_ws :: "pystr \<Rightarrow> pystr" where
  "skip_ws s = dropWhile json_ws s"

definition is_digit :: "nat \<Rightarrow> bool" where
  "is_digit c \<longleftrightarrow> 48 \<le> c \<and> c \<le> 57"

definition hexval :: "nat \<Rightarrow> nat option" where
  "hexval c =
     (if 48 \<le> c \<and> c \<le> 57 then Some (c - 48)
      else if 97 \<le> c \<and> c \<le> 102 then Some (c - 87)
      else if 65 \<le> c \<and> c \<le> 70 then Some (c - 55)
      else None)"

text \<open>Four hexadecimal digits after \<open>\u\<close>.\<close>

fun decode_uXXXX :: "pystr \<Rightarrow> nat option" where
  "decode_uXXXX (a # b # c # d # s) =
     (case (hexval a, hexval b, hexval c, hexval d) of
        (Some w, Some x, Some y, Some z) \<Rightarrow> Some (((w * 16 + x) * 16 + y) * 16 + z)
      | _ \<Rightarrow> None)"
| "decode_uXXXX _ = None"

text \<open>The table \<open>BACKSLASH\<close> of the decoder: the character after a backslash.\<close>

definition backslash :: "nat \<Rightarrow> nat option" where
  "backslash esc =
     (if esc = 34 then Some 34 else if esc = 92 then Some 92 else if esc = 47 then Some 47
      else if esc = 98 then Some 8 else if esc = 102 then Some 12 else if esc = 110 then Some 10
      else if esc = 114 then Some 13 else if esc = 116 then Some 9 else None)"

definition cons_char :: "nat \<Rightarrow> (pystr \<times> pystr) option \<Rightarrow> (pystr \<times> pystr) option" where
  "cons_char c r = (case r of None \<Rightarrow> None | Some (s, rest) \<Rightarrow> Some (c # s, rest))"

text \<open>
  \<open>scanstring\<close>, strict: the text after an opening quote, up to the closing quote. It
  gives the decoded string and the text after the closing quote; \<open>None\<close> is
  \<open>JSONDecodeError\<close>. Two \<open>\u\<close> escapes of a high and a low surrogate are joined.
\<close>

function scanstring :: "pystr \<Rightarrow> (pystr \<times> pystr) option" where
  "scanstring [] = None"
| "scanstring (c # s) =
     (if c = 34 then Some ([], s)
      else if c = 92 then
        (case s of
           [] \<Rightarrow> None
         | esc # s1 \<Rightarrow>
             if esc = 117 then
               (case decode_uXXXX s1 of
                  None \<Rightarrow> None
                | Some uni \<Rightarrow>
                    if 0xD800 \<le> uni \<and> uni \<le> 0xDBFF \<and> take 2 (drop 4 s1) = [92, 117] then
                      (case decode_uXXXX (drop 6 s1) of
                         None \<Rightarrow> None
                       | Some uni2 \<Rightarrow>
                           if 0xDC00 \<le> uni2 \<and> uni2 \<le> 0xDFFF
                           then cons_char (0x10000 + ((uni - 0xD800) * 1024 + (uni2 - 0xDC00)))
                                  (scanstring (drop 10 s1))
                           else cons_char uni (scanstring (drop 4 s1)))
                    else cons_char uni (scanstring (drop 4 s1)))
             else
               (case backslash esc of
                  None \<Rightarrow> None
                | Some ch \<Rightarrow> cons_char ch (scanstring s1)))
      else if c < 32 then None
      else cons_char c (scanstring s))"
  by pat_completeness auto
termination
  by (relation "measure length") auto

text \<open>\<open>NUMBER_RE\<close>: \<open>(-?(?:0|[1-9][0-9]*))(\.[0-9]+)?([eE][-+]?[0-9]+)?\<close>, matched at the
  start of the text; the literal and the text after it.\<close>

definition match_int :: "pystr \<Rightarrow> (pystr \<times> pystr) option" where
  "match_int s =
     (let sign = (if take 1 s = [45] then [45] else []);
          s1 = drop (length sign) s
      in case s1 of
           [] \<Rightarrow> None
         | d # s2 \<Rightarrow>
             if d = 48 then Some (sign @ [48], s2)
             else if 49 \<le> d \<and> d \<le> 57
               then Some (sign @ d # takeWhile is_digit s2, dropWhile is_digit s2)
             else None)"

definition match_frac :: "pystr \<Rightarrow> pystr \<times> pystr" where
  "match_frac s =
     (if take 1 s = [46] \<and> takeWhile is_digit (drop 1 s) \<noteq> []
      then (46 # takeWhile is_digit (drop 1 s), dropWhile is_digit (drop 1 s))
      else ([], s))"

definition match_exp :: "pystr \<Rightarrow> pystr \<times> pystr" where
  "match_exp s =
     (if take 1 s = [101] \<or> take 1 s = [69] then
        (let s1 = drop 1 s;
             sign = (if take 1 s1 = [45] \<or> take 1 s1 = [43] then take 1 s1 else []);
             s2 = drop (length sign) s1
         in if takeWhile is_digit s2 \<noteq> []
            then (take 1 s @ sign @ takeWhile is_digit s2, dropWhile is_digit s2)
            else ([], s))
      else ([], s))"

definition match_number :: "pystr \<Rightarrow> (pystr \<times> pystr) option" where
  "match_number s =
     (case match_int s of
        None \<Rightarrow> None
      | Some (i, s1) \<Rightarrow>
          (case match_frac s1 of (f, s2) \<Rightarrow>
             (case match_exp s2 of (e, s3) \<Rightarrow> Some (i @ f @ e, s3))))"

text \<open>A value that holds no other value: a string, a literal name or a number.\<close>

definition scan_atom :: "pystr \<Rightarrow> (json \<times> pystr) option" where
  "scan_atom s =
     (if take 1 s = [34] then
        (case scanstring (drop 1 s) of None \<Rightarrow> None | Some (x, r) \<Rightarrow> Some (JString x, r))
      else if take 4 s = str ''null'' then Some (JNull, drop 4 s)
      else if take 4 s = str ''true'' then Some (JBool True, drop 4 s)
      else if take 5 s = str ''false'' then Some (JBool False, drop 5 s)
      else
        (case match_number s of
           Some (lit, r) \<Rightarrow> Some (JNumber lit, r)
         | None \<Rightarrow>
             if take 3 s = str ''NaN'' then Some (JNumber (str ''NaN''), drop 3 s)
             else if take 8 s = str ''Infinity'' then Some (JNumber (str ''Infinity''), drop 8 s)
             else if take 9 s = str ''-Infinity''
               then Some (JNumber (str ''-Infinity''), drop 9 s)
             else None))"

text \<open>The next character after optional whitespace, and the text after it.\<close>

definition next_char :: "pystr \<Rightarrow> (nat \<times> pystr) option" where
  "next_char s = (case skip_ws s of [] \<Rightarrow> None | d # r \<Rightarrow> Some (d, r))"

text \<open>An expected character after optional whitespace: the text after it.\<close>

definition expect :: "nat \<Rightarrow> pystr \<Rightarrow> pystr option" where
  "expect c s = (case skip_ws s of [] \<Rightarrow> None | d # r \<Rightarrow> if d = c then Some r else None)"

text \<open>
  The scanner: \<open>scan_once\<close> reads one value, \<open>JSONArray\<close> the elements of an array
  (from an element on), \<open>JSONObject\<close> the members of an object (from after the opening
  quote of a name on). Each gives the value and the text after it. The first argument
  bounds the number of nested calls; \<open>json_loads\<close> starts it above the length of the
  text, and every call reads at least one character.
\<close>

fun scan_once :: "nat \<Rightarrow> pystr \<Rightarrow> (json \<times> pystr) option"
  and JSONArray :: "nat \<Rightarrow> pystr \<Rightarrow> json list \<Rightarrow> (json \<times> pystr) option"
  and JSONObject :: "nat \<Rightarrow> pystr \<Rightarrow> (pystr \<times> json) list \<Rightarrow> (json \<times> pystr) option"
where
  "scan_once 0 s = None"
| "scan_once (Suc n) s =
     (if take 1 s = [123] then
        (case next_char (drop 1 s) of
           None \<Rightarrow> None
         | Some (d, r) \<Rightarrow>
             if d = 125 then Some (JObject [], r)
             else if d = 34 then JSONObject n r []
             else None)
      else if take 1 s = [91] then
        (case next_char (drop 1 s) of
           None \<Rightarrow> None
         | Some (d, r) \<Rightarrow> if d = 93 then Some (JArray [], r) else JSONArray n (d # r) [])
      else scan_atom s)"
| "JSONArray 0 s vs = None"
| "JSONArray (Suc n) s vs =
     (case scan_once n s of
        None \<Rightarrow> None
      | Some (v, r) \<Rightarrow>
          (case next_char r of
             None \<Rightarrow> None
           | Some (d, r1) \<Rightarrow>
               if d = 93 then Some (JArray (vs @ [v]), r1)
               else if d = 44 then JSONArray n (skip_ws r1) (vs @ [v])
               else None))"
| "JSONObject 0 s ms = None"
| "JSONObject (Suc n) s ms =
     (case scanstring s of
        None \<Rightarrow> None
      | Some (k, r) \<Rightarrow>
          (case expect 58 r of
             None \<Rightarrow> None
           | Some r1 \<Rightarrow>
               (case scan_once n (skip_ws r1) of
                  None \<Rightarrow> None
                | Some (v, r2) \<Rightarrow>
                    (case next_char r2 of
                       None \<Rightarrow> None
                     | Some (d, r3) \<Rightarrow>
                         if d = 125 then Some (JObject (ms @ [(k, v)]), r3)
                         else if d = 44 then
                           (case expect 34 r3 of
                              None \<Rightarrow> None
                            | Some r4 \<Rightarrow> JSONObject n r4 (ms @ [(k, v)]))
                         else None))))"

text \<open>\<open>json.loads\<close> of a \<open>str\<close>; \<open>None\<close> is \<open>JSONDecodeError\<close>.\<close>

definition json_loads :: "pystr \<Rightarrow> json option" where
  "json_loads s =
     (if take 1 s = [0xFEFF] then None
      else
        (case scan_once (Suc (length s)) (skip_ws s) of
           None \<Rightarrow> None
         | Some (v, r) \<Rightarrow> if skip_ws r = [] then Some v else None))"

text \<open>
  \<open>json.dumps\<close> of a list of strings, with the defaults (\<open>ensure_ascii\<close>, separator
  \<open>", "\<close>): every character outside \<open>' '\<close> to \<open>'~'\<close>, and the quote and the backslash,
  is escaped; a code point from \<open>0x10000\<close> on becomes a surrogate pair.
\<close>

definition hexdigit :: "nat \<Rightarrow> nat" where
  "hexdigit d = (if d < 10 then 48 + d else 87 + d)"

definition hex4 :: "nat \<Rightarrow> pystr" where
  "hex4 n =
     [hexdigit (n div 4096 mod 16), hexdigit (n div 256 mod 16),
      hexdigit (n div 16 mod 16), hexdigit (n mod 16)]"

definition u_escape :: "nat \<Rightarrow> pystr" where
  "u_escape n = 92 # 117 # hex4 n"

definition escape_char :: "nat \<Rightarrow> pystr" where
  "escape_char c =
     (if c = 92 then [92, 92] else if c = 34 then [92, 34]
      else if c = 8 then [92, 98] else if c = 12 then [92, 102]
      else if c = 10 then [92, 110] else if c = 13 then [92, 114]
      else if c = 9 then [92, 116]
      else if 32 \<le> c \<and> c \<le> 126 then [c]
      else if c < 0x10000 then u_escape c
      else u_escape (0xD800 + (c - 0x10000) div 1024 mod 1024)
           @ u_escape (0xDC00 + (c - 0x10000) mod 1024))"

definition encode_basestring_ascii :: "pystr \<Rightarrow> pystr" where
  "encode_basestring_ascii s = 34 # concat (map escape_char s) @ [34]"

fun join :: "pystr \<Rightarrow> pystr list \<Rightarrow> pystr" where
  "join sep [] = []"
| "join sep [x] = x"
| "join sep (x # y # xs) = x @ sep @ join sep (y # xs)"

definition json_dumps :: "pystr list \<Rightarrow> pystr" where
  "json_dumps xs =
     (if xs = [] then str ''[]''
      else 91 # join [44, 32] (map encode_basestring_ascii xs) @ [93])"

section \<open>What the model takes from the libraries\<close>

text \<open>
  The twelve compiled patterns of \<open>AnswerParser\<close> are searched by the \<open>re\<close> module, and
  a decoded value that is not a string is converted by Python and by pydantic. These
  library behaviours are parameters of the model, and every theorem holds for each
  choice of them:
  \<^item> \<open>patterns f text\<close> and \<open>fallback_patterns f text\<close>: \<open>group(1)\<close> of the leftmost
    match of the pattern of field \<open>f\<close> in \<open>text\<close>, \<open>None\<close> when there is no match;
  \<^item> \<open>py_str v\<close>: \<open>str(v)\<close> of a decoded value that is not a string;
  \<^item> \<open>pydantic_str v\<close>: what a \<open>str\<close> field makes of a number or a boolean (the versions
    of pydantic differ), \<open>None\<close> when it rejects the value;
  \<^item> \<open>number_truth lit\<close>: the truth value of the number written \<open>lit\<close>;
  \<^item> \<open>exc_str e\<close>: \<open>str(e)\<close> of an exception that a library raised.

  An exception is of class \<open>Exception\<close>, which the handlers \<open>except Exception\<close> of the
  program catch, or it is \<open>asyncio.CancelledError\<close>, which derives from \<open>BaseException\<close>
  only: no handler of the program catches it, and \<open>isinstance(e, Exception)\<close> is false
  for it. It is what an awaited call ends with when the task is cancelled.
\<close>

datatype field =
  Answer | Answer_Value | Answer_Unit | Reference_ID | Supporting_Materials | Explanation

datatype exn =
    Exception pystr   \<comment> \<open>an exception with its message \<open>str(e)\<close>\<close>
  | ValidationError
  | AttributeError
  | ZeroDivisionError
  | CancelledError   \<comment> \<open>\<open>asyncio.CancelledError\<close>, not of class \<open>Exception\<close>\<close>

record lib =
  patterns :: "field \<Rightarrow> pystr \<Rightarrow> pystr option"
  fallback_patterns :: "field \<Rightarrow> pystr \<Rightarrow> pystr option"
  py_str :: "json \<Rightarrow> pystr"
  pydantic_str :: "json \<Rightarrow> pystr option"
  number_truth :: "pystr \<Rightarrow> bool"
  exc_str :: "exn \<Rightarrow> pystr"

text \<open>\<open>isinstance(e, Exception)\<close>, which is also what \<open>except Exception\<close> tests.\<close>

definition isinstance_Exception :: "exn \<Rightarrow> bool" where
  "isinstance_Exception e = (case e of CancelledError \<Rightarrow> False | _ \<Rightarrow> True)"

definition exn_str :: "lib \<Rightarrow> exn \<Rightarrow> pystr" where
  "exn_str L e = (case e of Exception m \<Rightarrow> m | _ \<Rightarrow> exc_str L e)"

text \<open>The truth value of a decoded value (\<open>if v\<close>).\<close>

definition truthy :: "lib \<Rightarrow> json \<Rightarrow> bool" where
  "truthy L v =
     (case v of
        JNull \<Rightarrow> False
      | JBool b \<Rightarrow> b
      | JNumber lit \<Rightarrow> number_truth L lit
      | JString s \<Rightarrow> s \<noteq> []
      | JArray xs \<Rightarrow> xs \<noteq> []
      | JObject ms \<Rightarrow> ms \<noteq> [])"

section \<open>\<open>RAGAnswer\<close>\<close>

record RAGAnswer =
  id' :: pystr
  question :: pystr
  answer :: pystr
  answer_value :: pystr
  answer_unit :: pystr
  ref_id :: "pystr list"
  supporting_materials :: pystr
  explanation :: pystr

text \<open>
  The validator of \<open>ref_id\<close>, run before the field is checked. On a string: the
  stripped text; the sentinel or nothing gives the empty list; a text in brackets is
  decoded by \<open>json.loads\<close>, and any exception there is swallowed; a text with a comma is
  split; else the text is one identifier.
\<close>

definition parse_ref_id :: "lib \<Rightarrow> json \<Rightarrow> json" where
  "parse_ref_id L v =
     (case v of
        JString s \<Rightarrow>
          (let v = strip s in
           if v = is_blank \<or> v = [] then JArray []
           else
             (case (if startswith v [91] \<and> endswith v [93] then json_loads v else None) of
                Some decoded \<Rightarrow> decoded
              | None \<Rightarrow>
                  if 44 \<in> set v
                  then JArray (map (\<lambda>item. JString (strip_chars [34, 39] (strip item)))
                                 (split 44 v))
                  else JArray [JString (strip_chars [34, 39] (strip v))]))
      | _ \<Rightarrow> if truthy L v then v else JArray [])"

text \<open>The four validators of the text fields have one body.\<close>

definition parse_answer_value :: "lib \<Rightarrow> json \<Rightarrow> pystr" where
  "parse_answer_value L v =
     (case v of JString s \<Rightarrow> strip s | JNull \<Rightarrow> is_blank | _ \<Rightarrow> py_str L v)"

definition parse_answer_unit :: "lib \<Rightarrow> json \<Rightarrow> pystr" where
  "parse_answer_unit L v =
     (case v of JString s \<Rightarrow> strip s | JNull \<Rightarrow> is_blank | _ \<Rightarrow> py_str L v)"

definition parse_supporting_materials :: "lib \<Rightarrow> json \<Rightarrow> pystr" where
  "parse_supporting_materials L v =
     (case v of JString s \<Rightarrow> strip s | JNull \<Rightarrow> is_blank | _ \<Rightarrow> py_str L v)"

definition parse_explanation :: "lib \<Rightarrow> json \<Rightarrow> pystr" where
  "parse_explanation L v =
     (case v of JString s \<Rightarrow> strip s | JNull \<Rightarrow> is_blank | _ \<Rightarrow> py_str L v)"

text \<open>
  pydantic's check of a \<open>str\<close> field and of a \<open>List[str]\<close> field: a string is taken as
  it is, \<open>None\<close>, a list and a dict are rejected where a string is due.
\<close>

definition validate_str :: "lib \<Rightarrow> json \<Rightarrow> pystr option" where
  "validate_str L v =
     (case v of
        JString s \<Rightarrow> Some s
      | JNull \<Rightarrow> None
      | JArray xs \<Rightarrow> None
      | JObject ms \<Rightarrow> None
      | _ \<Rightarrow> pydantic_str L v)"

definition validate_str_list :: "lib \<Rightarrow> json \<Rightarrow> pystr list option" where
  "validate_str_list L v =
     (case v of
        JArray xs \<Rightarrow>
          if list_all (\<lambda>x. validate_str L x \<noteq> None) xs
          then Some (map (\<lambda>x. the (validate_str L x)) xs) else None
      | _ \<Rightarrow> None)"

text \<open>
  The constructor \<open>RAGAnswer(id=..., question=..., answer=..., ...)\<close>: \<open>id\<close> and
  \<open>question\<close> are strings at every call of the source; the other six arguments are
  validated, and an invalid one raises \<open>ValidationError\<close>.
\<close>

definition RAGAnswer_init ::
  "lib \<Rightarrow> pystr \<Rightarrow> pystr \<Rightarrow> json \<Rightarrow> json \<Rightarrow> json \<Rightarrow> json \<Rightarrow> json \<Rightarrow> json \<Rightarrow> exn + RAGAnswer"
where
  "RAGAnswer_init L i q a av au r sm ex =
     (case (validate_str L a, validate_str_list L (parse_ref_id L r)) of
        (Some a', Some r') \<Rightarrow>
          Inr \<lparr>id' = i, question = q, answer = a',
               answer_value = parse_answer_value L av,
               answer_unit = parse_answer_unit L au,
               ref_id = r',
               supporting_materials = parse_supporting_materials L sm,
               explanation = parse_explanation L ex\<rparr>
      | _ \<Rightarrow> Inl ValidationError)"

text \<open>\<open>format_answer_for_csv\<close>: the column of \<open>ref_id\<close>.\<close>

definition format_ref_id_for_csv :: "pystr list \<Rightarrow> pystr" where
  "format_ref_id_for_csv r = (if r \<noteq> [] then json_dumps r else str ''[]'')"

section \<open>\<open>AnswerParser\<close>\<close>

text \<open>
  The span of \<open>re.search(r'\{.*\}', text, re.DOTALL)\<close>: from the first opening brace
  to the last closing brace after it.
\<close>

definition json_match :: "pystr \<Rightarrow> pystr option" where
  "json_match text =
     (let from_brace = dropWhile (\<lambda>c. c \<noteq> 123) text;
          to_brace = dropWhile (\<lambda>c. c \<noteq> 125) (rev from_brace)
      in if to_brace = [] then None else Some (rev to_brace))"

text \<open>
  \<open>_try_parse_json\<close>: only \<open>json.JSONDecodeError\<close> is caught. \<open>Inr None\<close> is the
  return of \<open>None\<close>, \<open>Inl\<close> an exception that leaves the function.
\<close>

definition try_parse_json :: "lib \<Rightarrow> pystr \<Rightarrow> pystr \<Rightarrow> pystr \<Rightarrow> exn + RAGAnswer option" where
  "try_parse_json L text question_id question_text =
     (case json_match text of
        None \<Rightarrow> Inr None
      | Some matched \<Rightarrow>
          (case json_loads matched of
             None \<Rightarrow> Inr None
           | Some (JObject json_data) \<Rightarrow>
               (case RAGAnswer_init L question_id question_text
                       (dict_get json_data (str ''answer'') (JString is_blank))
                       (dict_get json_data (str ''answer_value'') (JString is_blank))
                       (dict_get json_data (str ''answer_unit'') (JString is_blank))
                       (dict_get json_data (str ''ref_id'') (JArray []))
                       (dict_get json_data (str ''supporting_materials'') (JString is_blank))
                       (dict_get json_data (str ''explanation'') (JString is_blank)) of
                  Inl e \<Rightarrow> Inl e
                | Inr r \<Rightarrow> Inr (Some r))
           | Some _ \<Rightarrow> Inl AttributeError))"

text \<open>
  The loop over the six patterns: the primary pattern, else the fallback pattern, else
  the sentinel; a matched value is stripped and its whitespace collapsed.
\<close>

definition parsed_field :: "lib \<Rightarrow> pystr \<Rightarrow> field \<Rightarrow> pystr" where
  "parsed_field L cleaned_text f =
     (case patterns L f cleaned_text of
        Some g \<Rightarrow> collapse_ws (strip g)
      | None \<Rightarrow>
          (case fallback_patterns L f cleaned_text of
             Some g \<Rightarrow> collapse_ws (strip g)
           | None \<Rightarrow> is_blank))"

definition all_fields :: "field list" where
  "all_fields =
     [Answer, Answer_Value, Answer_Unit, Reference_ID, Supporting_Materials, Explanation]"

text \<open>The value of \<open>parsed_data['answer']\<close> after the two repairs.\<close>

definition parsed_answer_field :: "lib \<Rightarrow> pystr \<Rightarrow> pystr" where
  "parsed_answer_field L cleaned_text =
     (let a0 = parsed_field L cleaned_text Answer;
          a1 = (if (\<forall>f \<in> set all_fields. parsed_field L cleaned_text f = is_blank)
                   \<and> contains (lower cleaned_text) (str ''unable to answer'')
                then unable_sentence else a0);
          potential_answer = strip (hd (split 10 cleaned_text))
      in if a1 = is_blank \<and> length potential_answer > 10
            \<and> \<not> startswith potential_answer [123]
            \<and> \<not> startswith potential_answer (str ''Answer:'')
         then potential_answer else a1)"

text \<open>
  \<open>parse_answer\<close>. \<open>Inr None\<close> is the return of \<open>None\<close> (the extraction failed),
  \<open>Inl\<close> an exception that leaves the function: the call of \<open>_try_parse_json\<close> stands
  outside every \<open>try\<close>, the last constructor call inside one.
\<close>

definition parse_answer :: "lib \<Rightarrow> pystr \<Rightarrow> pystr \<Rightarrow> pystr \<Rightarrow> exn + RAGAnswer option" where
  "parse_answer L response_text question_id question_text =
     (if response_text = [] \<or> strip response_text = [] then Inr None
      else
        (let cleaned_text = strip response_text in
         case try_parse_json L cleaned_text question_id question_text of
           Inl e \<Rightarrow> Inl e
         | Inr (Some json_result) \<Rightarrow> Inr (Some json_result)
         | Inr None \<Rightarrow>
             if parsed_answer_field L cleaned_text \<noteq> is_blank then
               (case RAGAnswer_init L question_id question_text
                       (JString (parsed_answer_field L cleaned_text))
                       (JString (parsed_field L cleaned_text Answer_Value))
                       (JString (parsed_field L cleaned_text Answer_Unit))
                       (JString (parsed_field L cleaned_text Reference_ID))
                       (JString (parsed_field L cleaned_text Supporting_Materials))
                       (JString (parsed_field L cleaned_text Explanation)) of
                  Inl e \<Rightarrow> Inr None
                | Inr answer_obj \<Rightarrow> Inr (Some answer_obj))
             else Inr None))"

section \<open>\<open>RAGRetryQuery\<close>\<close>

record RAGRetryQuery =
  max_retries :: int
  retry_delay :: rat
  quality_threshold :: rat

text \<open>\<open>_calculate_quality_score\<close>; the floating-point sums are taken exactly.\<close>

definition calculate_quality_score :: "RAGAnswer \<Rightarrow> rat" where
  "calculate_quality_score a =
     min ((if answer a \<noteq> [] \<and> answer a \<noteq> is_blank then 3 / 10 else 0)
          + (if ref_id a \<noteq> [] then 2 / 10 else 0)
          + (if answer_value a \<noteq> [] \<and> answer_value a \<noteq> is_blank then 2 / 10 else 0)
          + (if supporting_materials a \<noteq> [] \<and> supporting_materials a \<noteq> is_blank
             then 15 / 100 else 0)
          + (if explanation a \<noteq> [] \<and> explanation a \<noteq> is_blank then 15 / 100 else 0))
         1"

text \<open>
  \<open>_create_failure_record\<close>. The record is built by the constructor, so the validators
  strip the reason and the explanation. \<open>last_error\<close> is an exception, or the text of
  the format failure, which stands here as an exception with that message.
\<close>

definition create_failure_record ::
  "lib \<Rightarrow> pystr \<Rightarrow> pystr \<Rightarrow> pystr option \<Rightarrow> exn option \<Rightarrow> exn + RAGAnswer"
where
  "create_failure_record L question_id question_text last_response last_error =
     (let error_info =
            (case last_error of
               Some e \<Rightarrow> query_failed @ [58, 32] @ exn_str L e
             | None \<Rightarrow> parse_failed);
          response = (case last_response of None \<Rightarrow> [] | Some r \<Rightarrow> r)
      in RAGAnswer_init L question_id question_text
           (JString query_failed) (JString is_blank) (JString is_blank) (JArray [])
           (JString error_info)
           (JString
              (if response \<noteq> [] \<and> length response > 200
               then last_response_label @ take 200 response @ str ''...''
               else if response \<noteq> [] then response else no_response)))"

text \<open>
  The upstream service \<open>rag.aquery\<close>: what the call for a question returns or raises,
  given the prompt template passed and the number of calls made before it for this
  question. The awaited call can also end with \<open>asyncio.CancelledError\<close>, when the task
  is cancelled while it waits for the service. A trace records the calls and the
  sleeps.
\<close>

datatype outcome =
    Returns pystr
  | Raises pystr   \<comment> \<open>an exception of class \<open>Exception\<close>, with its message\<close>
  | Cancelled      \<comment> \<open>the call ends with \<open>asyncio.CancelledError\<close>\<close>

datatype event = Aquery pystr "pystr option" | Sleep rat

type_synonym rag = "pystr \<Rightarrow> pystr option \<Rightarrow> nat \<Rightarrow> outcome"

text \<open>The template that reaches the upstream call (\<open>if prompt_template\<close>): \<open>None\<close> and the
  empty text pass none.\<close>

definition passed_template :: "pystr option \<Rightarrow> pystr option" where
  "passed_template prompt_template =
     (if prompt_template = None \<or> prompt_template = Some [] then None else prompt_template)"

text \<open>
  The loop of \<open>query_with_retry\<close> over the attempts left. The result is the value
  returned (\<open>Inr\<close>) or an exception that leaves the function (\<open>Inl\<close>), with the trace.
  The quality score is computed on success and only printed. The handler
  \<open>except Exception\<close> takes an exception of class \<open>Exception\<close> raised in the body of the
  \<open>try\<close>; any other exception leaves the function where it is raised. The sleeps are
  taken to complete.
\<close>

fun query_loop ::
  "lib \<Rightarrow> RAGRetryQuery \<Rightarrow> rag \<Rightarrow> pystr \<Rightarrow> pystr \<Rightarrow> pystr option \<Rightarrow> nat list \<Rightarrow>
   pystr option \<Rightarrow> exn option \<Rightarrow> event list \<Rightarrow> (exn + RAGAnswer) \<times> event list"
where
  "query_loop L Q aquery question_text question_id prompt_template [] last_response last_error tr =
     (create_failure_record L question_id question_text last_response last_error, tr)"
| "query_loop L Q aquery question_text question_id prompt_template (attempt # rest)
       last_response last_error tr =
     (let param = passed_template prompt_template;
          tr1 = tr @ [Aquery question_text param];
          tr2 = (if int attempt < max_retries Q
                 then tr1 @ [Sleep (retry_delay Q * of_nat (attempt + 1))] else tr1)
      in case aquery question_text param attempt of
           Cancelled \<Rightarrow> (Inl CancelledError, tr1)
         | Raises m \<Rightarrow>
             query_loop L Q aquery question_text question_id prompt_template rest
               last_response (Some (Exception m)) tr2
         | Returns response \<Rightarrow>
             (case parse_answer L response question_id question_text of
                Inl e \<Rightarrow>
                  if isinstance_Exception e then
                    query_loop L Q aquery question_text question_id prompt_template rest
                      (Some response) (Some e) tr2
                  else (Inl e, tr1)
              | Inr (Some parsed_answer) \<Rightarrow>
                  (let quality_score = calculate_quality_score parsed_answer
                   in (Inr parsed_answer, tr1))
              | Inr None \<Rightarrow>
                  if int attempt < max_retries Q then
                    query_loop L Q aquery question_text question_id prompt_template rest
                      (Some response) last_error tr2
                  else
                    (case create_failure_record L question_id question_text (Some response)
                            (Some (Exception format_failed)) of
                       Inl e \<Rightarrow>
                         if isinstance_Exception e then
                           query_loop L Q aquery question_text question_id prompt_template
                             rest (Some response) (Some e) tr2
                         else (Inl e, tr1)
                     | Inr failure \<Rightarrow> (Inr failure, tr1))))"

definition query_with_retry ::
  "lib \<Rightarrow> RAGRetryQuery \<Rightarrow> rag \<Rightarrow> pystr \<Rightarrow> pystr \<Rightarrow> pystr option \<Rightarrow>
   (exn + RAGAnswer) \<times> event list"
where
  "query_with_retry L Q aquery question_text question_id prompt_template =
     query_loop L Q aquery question_text question_id prompt_template
       [0..<nat (max_retries Q + 1)] None None []"

text \<open>The number of upstream calls in a trace.\<close>

definition calls :: "event list \<Rightarrow> nat" where
  "calls tr = length (filter (\<lambda>e. case e of Aquery q p \<Rightarrow> True | Sleep d \<Rightarrow> False) tr)"

section \<open>\<open>BatchRAGQuery\<close>\<close>
















text \<open>\<open>get_statistics\<close>. Python's \<open>/\<close> raises on a zero divisor.\<close>

record statistics =
  total :: nat
  successful :: nat
  failed :: int
  success_rate :: rat
  average_quality_score :: rat
  threshold :: rat

definition truediv :: "rat \<Rightarrow> rat \<Rightarrow> exn + rat" where
  "truediv a b = (if b = 0 then Inl ZeroDivisionError else Inr (a / b))"

definition get_statistics :: "RAGRetryQuery \<Rightarrow> RAGAnswer list \<Rightarrow> exn + statistics" where
  "get_statistics Q results =
     (let n = length results;
          ok = length (filter (\<lambda>r. answer r \<noteq> query_failed) results);
          quality_scores =
            map calculate_quality_score (filter (\<lambda>r. answer r \<noteq> query_failed) results)
      in case (if quality_scores \<noteq> []
               then truediv (sum_list quality_scores) (of_nat (length quality_scores))
               else Inr 0) of
           Inl e \<Rightarrow> Inl e
         | Inr avg_quality \<Rightarrow>
             (case (if n > 0 then truediv (of_nat ok) (of_nat n) else Inr 0) of
                Inl e \<Rightarrow> Inl e
              | Inr rate \<Rightarrow>
                  Inr \<lparr>total = n, successful = ok, failed = int n - int ok,
                       success_rate = rate, average_quality_score = avg_quality,
                       threshold = quality_threshold Q\<rparr>))"

section \<open>Notions used to state the properties\<close>

text \<open>
  An attempt fails when the upstream call raises an exception of class \<open>Exception\<close>, or
  returns a text from which \<open>parse_answer\<close> gives no record. A call that ends with
  \<open>asyncio.CancelledError\<close> is no failed attempt: it ends the whole query.
\<close>

definition attempt_fails :: "lib \<Rightarrow> rag \<Rightarrow> pystr \<Rightarrow> pystr \<Rightarrow> pystr option \<Rightarrow> nat \<Rightarrow> bool" where
  "attempt_fails L aquery question_text question_id param attempt =
     (case aquery question_text param attempt of
        Raises m \<Rightarrow> True
      | Cancelled \<Rightarrow> False
      | Returns t \<Rightarrow>
          (case parse_answer L t question_id question_text of
             Inr (Some r) \<Rightarrow> False
           | _ \<Rightarrow> True))"

text \<open>The last response obtained in a list of attempts, if any attempt returned.\<close>

definition last_returned :: "rag \<Rightarrow> pystr \<Rightarrow> pystr option \<Rightarrow> nat list \<Rightarrow> pystr option" where
  "last_returned aquery question_text param attempts =
     fold (\<lambda>a acc. case aquery question_text param a of Returns t \<Rightarrow> Some t | _ \<Rightarrow> acc)
       attempts None"

text \<open>The trace of a run in which every attempt fails: a call, then the backoff sleep
  when attempts remain.\<close>

definition retry_trace :: "RAGRetryQuery \<Rightarrow> pystr \<Rightarrow> pystr option \<Rightarrow> nat list \<Rightarrow> event list" where
  "retry_trace Q question_text param attempts =
     concat (map (\<lambda>a. Aquery question_text param #
                       (if int a < max_retries Q
                        then [Sleep (retry_delay Q * of_nat (a + 1))] else []))
                 attempts)"

text \<open>The reason and the explanation that a failure record carries.\<close>

definition failure_reason :: "lib \<Rightarrow> exn option \<Rightarrow> pystr" where
  "failure_reason L last_error =
     strip (case last_error of
              Some e \<Rightarrow> query_failed @ [58, 32] @ exn_str L e
            | None \<Rightarrow> parse_failed)"

definition failure_explanation :: "pystr option \<Rightarrow> pystr" where
  "failure_explanation last_response =
     (case last_response of
        None \<Rightarrow> no_response
      | Some t \<Rightarrow>
          if t = [] then no_response
          else if length t > 200 then last_response_label @ take 200 t @ str ''...''
          else strip t)"

text \<open>
  What a failing attempt leaves in \<open>last_response\<close> and \<open>last_error\<close>; a format
  failure with no attempt left puts its own reason in the place of the last error.
\<close>

definition fail_step ::
  "lib \<Rightarrow> RAGRetryQuery \<Rightarrow> rag \<Rightarrow> pystr \<Rightarrow> pystr \<Rightarrow> pystr option \<Rightarrow> nat \<Rightarrow>
   pystr option \<times> exn option \<Rightarrow> pystr option \<times> exn option"
where
  "fail_step L Q aquery question_text question_id param a st =
     (case aquery question_text param a of
        Raises m \<Rightarrow> (fst st, Some (Exception m))
      | Cancelled \<Rightarrow> st
      | Returns t \<Rightarrow>
          (Some t,
           (case parse_answer L t question_id question_text of
              Inl e \<Rightarrow> Some e
            | Inr x \<Rightarrow>
                if int a < max_retries Q then snd st else Some (Exception format_failed))))"

text \<open>The error that a failing attempt leaves when no attempt remains: the exception
  raised, or the reason of a format failure.\<close>

definition attempt_error :: "lib \<Rightarrow> rag \<Rightarrow> pystr \<Rightarrow> pystr \<Rightarrow> pystr option \<Rightarrow> nat \<Rightarrow> exn" where
  "attempt_error L aquery question_text question_id param a =
     (case aquery question_text param a of
        Raises m \<Rightarrow> Exception m
      | Cancelled \<Rightarrow> CancelledError
      | Returns t \<Rightarrow>
          (case parse_answer L t question_id question_text of
             Inl e \<Rightarrow> e
           | Inr x \<Rightarrow> Exception format_failed))"






text \<open>
  A library instance for concrete runs: no pattern matches. It agrees with the \<open>re\<close>
  module on a text that holds none of the label words of the twelve patterns.
\<close>

definition lib0 :: lib where
  "lib0 = \<lparr>patterns = (\<lambda>f t. None), fallback_patterns = (\<lambda>f t. None),
            py_str = (\<lambda>v. []), pydantic_str = (\<lambda>v. None),
            number_truth = (\<lambda>lit. True), exc_str = (\<lambda>e. [])\<rparr>"

definition Q0 :: RAGRetryQuery where
  "Q0 = \<lparr>max_retries = 3, retry_delay = 1, quality_threshold = 7 / 10\<rparr>"

text \<open>
  The surrogate code points, and the texts in which no high surrogate stands right
  before a low surrogate. The code points of a \<open>str\<close> of Python are all below
  \<open>0x110000\<close>.
\<close>

definition high_surrogate :: "nat \<Rightarrow> bool" where
  "high_surrogate c = (0xD800 \<le> c \<and> c \<le> 0xDBFF)"

definition low_surrogate :: "nat \<Rightarrow> bool" where
  "low_surrogate c = (0xDC00 \<le> c \<and> c \<le> 0xDFFF)"

text \<open>
  A text after a \<open>\u\<close> escape with which the decoder joins no surrogate pair: it does
  not start with \<open>\u\<close>, or its \<open>\u\<close> escape is no low surrogate.
\<close>

definition unjoined :: "pystr \<Rightarrow> bool" where
  "unjoined tail \<longleftrightarrow>
     take 2 tail \<noteq> [92, 117]
     \<or> (case decode_uXXXX (drop 2 tail) of None \<Rightarrow> False | Some u \<Rightarrow> \<not> low_surrogate u)"

fun no_surrogate_pair :: "pystr \<Rightarrow> bool" where
  "no_surrogate_pair [] = True"
| "no_surrogate_pair [c] = (c < 0x110000)"
| "no_surrogate_pair (c # d # s) =
     (c < 0x110000 \<and> \<not> (high_surrogate c \<and> low_surrogate d) \<and> no_surrogate_pair (d # s))"

section \<open>Statistics\<close>

lemma get_statistics_Inr:
  "get_statistics Q results =
     Inr \<lparr>total = length results,
          successful = length (filter (\<lambda>r. answer r \<noteq> query_failed) results),
          failed = int (length results) - int (length (filter (\<lambda>r. answer r \<noteq> query_failed) results)),
          success_rate = (if results = [] then 0
             else of_nat (length (filter (\<lambda>r. answer r \<noteq> query_failed) results)) / of_nat (length results)),
          average_quality_score =
            (if filter (\<lambda>r. answer r \<noteq> query_failed) results = [] then 0
             else sum_list (map calculate_quality_score (filter (\<lambda>r. answer r \<noteq> query_failed) results))
                  / of_nat (length (filter (\<lambda>r. answer r \<noteq> query_failed) results))),
          threshold = quality_threshold Q\<rparr>"
  by (simp add: get_statistics_def truediv_def Let_def)

text \<open>
  Claim C10. \<open>get_statistics\<close> returns for every list of results and never raises
  \<open>ZeroDivisionError\<close>: for the empty list every count and both ratios are zero, and
  when no record counts as successful the average quality score is zero.
\<close>

theorem get_statistics_total:
  "get_statistics Q [] =
     Inr \<lparr>total = 0, successful = 0, failed = 0, success_rate = 0,
          average_quality_score = 0, threshold = quality_threshold Q\<rparr>
   \<and> (\<exists>s. get_statistics Q results = Inr s)
   \<and> ((\<forall>r \<in> set results. answer r = query_failed) \<longrightarrow>
        (\<exists>s. get_statistics Q results = Inr s \<and> successful s = 0
              \<and> average_quality_score s = 0))"
proof (intro conjI impI)
  show "get_statistics Q [] =
     Inr \<lparr>total = 0, successful = 0, failed = 0, success_rate = 0,
          average_quality_score = 0, threshold = quality_threshold Q\<rparr>"
    by (simp add: get_statistics_Inr)
  show "\<exists>s. get_statistics Q results = Inr s"
    by (simp add: get_statistics_Inr)
next
  assume all_failed: "\<forall>r \<in> set results. answer r = query_failed"
  then have "filter (\<lambda>r. answer r \<noteq> query_failed) results = []"
    by (simp add: filter_empty_conv)
  then show "\<exists>s. get_statistics Q results = Inr s \<and> successful s = 0
       \<and> average_quality_score s = 0"
    by (simp add: get_statistics_Inr)
qed

theorem get_statistics_total_witness:
  "answer \<lparr>id' = [49], question = [63], answer = query_failed, answer_value = is_blank,
           answer_unit = is_blank, ref_id = [], supporting_materials = parse_failed,
           explanation = no_response\<rparr> = query_failed
   \<and> (\<exists>s. get_statistics \<lparr>max_retries = 3, retry_delay = 1, quality_threshold = 7 / 10\<rparr>
            [\<lparr>id' = [49], question = [63], answer = query_failed, answer_value = is_blank,
              answer_unit = is_blank, ref_id = [], supporting_materials = parse_failed,
              explanation = no_response\<rparr>] = Inr s
          \<and> successful s = 0 \<and> average_quality_score s = 0)"
  using get_statistics_total
    [of "\<lparr>max_retries = 3, retry_delay = 1, quality_threshold = 7 / 10\<rparr>"
        "[\<lparr>id' = [49], question = [63], answer = query_failed, answer_value = is_blank,
           answer_unit = is_blank, ref_id = [], supporting_materials = parse_failed,
           explanation = no_response\<rparr>]"]
  by simp

section \<open>Failure records and the retry loop\<close>

lemma strip_is_blank: "strip is_blank = is_blank"
  by (simp add: strip_def strip_by_def is_blank_def str_def isspace_def)

lemma strip_by_noop:
  assumes "s \<noteq> []" and "\<not> P (hd s)" and "\<not> P (last s)"
  shows "strip_by P s = s"
proof -
  from assms have "dropWhile P s = s"
    by (cases s) auto
  moreover from assms have "dropWhile P (rev s) = rev s"
    by (cases "rev s") (auto simp: hd_rev)
  ultimately show ?thesis
    by (simp add: strip_by_def)
qed

lemma strip_no_response: "strip no_response = no_response"
  by (simp add: strip_def strip_by_def no_response_def isspace_def)

lemma strip_truncated:
  "strip (last_response_label @ take 200 t @ str ''...'') =
     last_response_label @ take 200 t @ str ''...''"
  unfolding strip_def
  by (rule strip_by_noop) (simp_all add: last_response_label_def str_def isspace_def)

lemma RAGAnswer_init_strings:
  "RAGAnswer_init L i q (JString a) (JString av) (JString au) (JArray []) (JString sm)
     (JString ex) =
   Inr \<lparr>id' = i, question = q, answer = a, answer_value = strip av, answer_unit = strip au,
        ref_id = [], supporting_materials = strip sm, explanation = strip ex\<rparr>"
  by (simp add: RAGAnswer_init_def validate_str_def validate_str_list_def parse_ref_id_def
      truthy_def parse_answer_value_def parse_answer_unit_def parse_supporting_materials_def
      parse_explanation_def)

lemma create_failure_record_Inr:
  "create_failure_record L question_id question_text last_response last_error =
   Inr \<lparr>id' = question_id, question = question_text, answer = query_failed,
        answer_value = is_blank, answer_unit = is_blank, ref_id = [],
        supporting_materials = failure_reason L last_error,
        explanation = failure_explanation last_response\<rparr>"
  by (cases last_response)
     (simp_all add: create_failure_record_def RAGAnswer_init_strings Let_def strip_is_blank
        failure_reason_def failure_explanation_def strip_no_response strip_truncated)

lemma RAGAnswer_init_exception_class:
  "RAGAnswer_init L i q a av au r sm ex = Inl e \<Longrightarrow> isinstance_Exception e"
  by (auto simp: RAGAnswer_init_def isinstance_Exception_def split: option.splits)

lemma extractor_exception_class:
  "try_parse_json L text question_id question_text = Inl e \<Longrightarrow> isinstance_Exception e"
  by (auto simp: try_parse_json_def isinstance_Exception_def
      split: option.splits json.splits sum.splits dest: RAGAnswer_init_exception_class)

lemma parse_answer_exception_class:
  "parse_answer L response_text question_id question_text = Inl e \<Longrightarrow> isinstance_Exception e"
  by (auto simp: parse_answer_def Let_def
      split: if_splits option.splits sum.splits dest: extractor_exception_class)

lemma query_loop_returns:
  assumes "\<forall>a \<in> set attempts. aquery question_text (passed_template prompt_template) a
             \<noteq> Cancelled"
  shows "\<exists>r tr'. query_loop L Q aquery question_text question_id prompt_template attempts
      last_response last_error tr = (Inr r, tr')"
  using assms
proof (induction attempts arbitrary: last_response last_error tr)
  case Nil
  show ?case by (simp add: create_failure_record_Inr)
next
  case (Cons a rest)
  from Cons.prems have rest_ok:
    "\<forall>a \<in> set rest. aquery question_text (passed_template prompt_template) a \<noteq> Cancelled"
    and a_ok: "aquery question_text (passed_template prompt_template) a \<noteq> Cancelled"
    by simp_all
  note IH = Cons.IH [OF rest_ok]
  show ?case
  proof (cases "aquery question_text (passed_template prompt_template) a")
    case Cancelled
    with a_ok show ?thesis by simp
  next
    case (Raises m)
    then show ?thesis using IH by (simp add: Let_def)
  next
    case (Returns t)
    show ?thesis
    proof (cases "parse_answer L t question_id question_text")
      case (Inl e)
      from parse_answer_exception_class [OF Inl] Returns Inl show ?thesis
        using IH by (simp add: Let_def)
    next
      case (Inr x)
      with Returns show ?thesis
        using IH by (cases x) (simp_all add: Let_def create_failure_record_Inr)
    qed
  qed
qed

lemma retry_trace_Cons:
  "retry_trace Q question_text param (a # rest) =
     Aquery question_text param #
       (if int a < max_retries Q then [Sleep (retry_delay Q * of_nat (a + 1))] else [])
     @ retry_trace Q question_text param rest"
  by (simp add: retry_trace_def)

lemma retry_trace_Nil: "retry_trace Q question_text param [] = []"
  by (simp add: retry_trace_def)

lemma query_loop_all_fail:
  assumes "\<forall>a \<in> set attempts. attempt_fails L aquery question_text question_id
                (passed_template prompt_template) a"
    and "\<forall>a \<in> set (butlast attempts). int a < max_retries Q"
  shows "query_loop L Q aquery question_text question_id prompt_template attempts
           last_response last_error tr =
         (create_failure_record L question_id question_text
            (fst (fold (fail_step L Q aquery question_text question_id
                          (passed_template prompt_template)) attempts
                    (last_response, last_error)))
            (snd (fold (fail_step L Q aquery question_text question_id
                          (passed_template prompt_template)) attempts
                    (last_response, last_error))),
          tr @ retry_trace Q question_text (passed_template prompt_template) attempts)"
  using assms
proof (induction attempts arbitrary: last_response last_error tr)
  case Nil
  show ?case by (simp add: retry_trace_Nil)
next
  case (Cons a rest)
  let ?p = "passed_template prompt_template"
  have rest_fail: "\<forall>a \<in> set rest. attempt_fails L aquery question_text question_id ?p a"
    using Cons.prems(1) by simp
  have rest_low: "\<forall>a \<in> set (butlast rest). int a < max_retries Q"
    using Cons.prems(2) by (cases rest) auto
  note IH = Cons.IH [OF rest_fail rest_low]
  have last_or_low: "int a < max_retries Q \<or> rest = []"
    using Cons.prems(2) by (cases rest) auto
  have a_fails: "attempt_fails L aquery question_text question_id ?p a"
    using Cons.prems(1) by simp
  show ?case
  proof (cases "aquery question_text ?p a")
    case Cancelled
    with a_fails show ?thesis
      by (simp add: attempt_fails_def)
  next
    case (Raises m)
    then show ?thesis
      by (simp add: IH Let_def fail_step_def retry_trace_Cons)
  next
    case (Returns t)
    show ?thesis
    proof (cases "parse_answer L t question_id question_text")
      case (Inl e)
      from parse_answer_exception_class [OF Inl] Returns Inl show ?thesis
        by (simp add: IH Let_def fail_step_def retry_trace_Cons)
    next
      case (Inr x)
      with Returns a_fails have none: "x = None"
        by (cases x) (simp_all add: attempt_fails_def)
      show ?thesis
      proof (cases "int a < max_retries Q")
        case True
        with Returns Inr none show ?thesis
          by (simp add: IH Let_def fail_step_def retry_trace_Cons)
      next
        case False
        with last_or_low have "rest = []" by simp
        with False Returns Inr none show ?thesis
          by (simp add: Let_def fail_step_def retry_trace_Cons retry_trace_Nil
              create_failure_record_Inr)
      qed
    qed
  qed
qed


lemma butlast_upt_less: "\<forall>a \<in> set (butlast [0..<n]). Suc a < n"
  by (cases n) auto

lemma butlast_attempts_low:
  "\<forall>a \<in> set (butlast [0..<nat (mr + 1)]). int a < mr"
proof
  fix a
  assume "a \<in> set (butlast [0..<nat (mr + 1)])"
  with butlast_upt_less have "Suc a < nat (mr + 1)" by blast
  then show "int a < mr" by arith
qed

lemma calls_append: "calls (xs @ ys) = calls xs + calls ys"
  by (simp add: calls_def)

lemma calls_retry_trace: "calls (retry_trace Q question_text param attempts) = length attempts"
  by (induction attempts) (simp_all add: retry_trace_Nil retry_trace_Cons calls_def)

lemma fst_fold_fail_step:
  "fst (fold (fail_step L Q aquery question_text question_id param) attempts st) =
   fold (\<lambda>a acc. case aquery question_text param a of Returns t \<Rightarrow> Some t | _ \<Rightarrow> acc)
     attempts (fst st)"
  by (induction attempts arbitrary: st) (simp_all add: fail_step_def split: outcome.splits)

lemma query_with_retry_all_fail:
  assumes "\<forall>a < nat (max_retries Q + 1). attempt_fails L aquery question_text question_id
                (passed_template prompt_template) a"
  shows "query_with_retry L Q aquery question_text question_id prompt_template =
         (create_failure_record L question_id question_text
            (last_returned aquery question_text (passed_template prompt_template)
               [0..<nat (max_retries Q + 1)])
            (snd (fold (fail_step L Q aquery question_text question_id
                          (passed_template prompt_template)) [0..<nat (max_retries Q + 1)]
                    (None, None))),
          retry_trace Q question_text (passed_template prompt_template)
            [0..<nat (max_retries Q + 1)])"
proof -
  have "\<forall>a \<in> set [0..<nat (max_retries Q + 1)]. attempt_fails L aquery question_text
          question_id (passed_template prompt_template) a"
    using assms by simp
  from query_loop_all_fail [OF this butlast_attempts_low]
  show ?thesis
    by (simp add: query_with_retry_def fst_fold_fail_step last_returned_def)
qed

lemma query_loop_threshold:
  "query_loop L (Q\<lparr>quality_threshold := x\<rparr>) aquery question_text question_id
      prompt_template attempts last_response last_error tr =
   query_loop L Q aquery question_text question_id prompt_template attempts
      last_response last_error tr"
proof (induction attempts arbitrary: last_response last_error tr)
  case Nil
  show ?case by simp
next
  case (Cons a rest)
  show ?case
    by (simp add: Cons.IH Let_def split: outcome.splits sum.splits option.splits)
qed

lemma calculate_quality_score_range:
  "0 \<le> calculate_quality_score a \<and> calculate_quality_score a \<le> 1"
  by (simp add: calculate_quality_score_def)

lemma attempts_nonempty:
  "0 \<le> mr \<Longrightarrow> [0..<nat (mr + 1)] = 0 # [1..<nat (mr + 1)]"
  by (simp add: upt_conv_Cons)


lemma parse_answer_empty: "parse_answer L [] question_id question_text = Inr None"
  by (simp add: parse_answer_def)

text \<open>
  Claim C1. When every upstream call returns a text from which no record is extracted
  and \<open>max_retries\<close> is 3, \<open>query_with_retry\<close> calls the upstream service exactly four
  times (attempts 0 to 3, with a backoff sleep after each but the last) and returns a
  failure record: \<open>answer\<close> is the failure marker, \<open>answer_value\<close> and \<open>answer_unit\<close>
  are the sentinel, \<open>ref_id\<close> is empty.
\<close>

theorem retry_bound:
  assumes "max_retries Q = 3"
    and "\<forall>n. \<exists>t. aquery question_text (passed_template prompt_template) n = Returns t
              \<and> (\<forall>r. parse_answer L t question_id question_text \<noteq> Inr (Some r))"
  shows "\<exists>r tr. query_with_retry L Q aquery question_text question_id prompt_template
                   = (Inr r, tr)
           \<and> tr = retry_trace Q question_text (passed_template prompt_template) [0, 1, 2, 3]
           \<and> calls tr = 4
           \<and> answer r = query_failed \<and> answer_value r = is_blank
           \<and> answer_unit r = is_blank \<and> ref_id r = []"
proof -
  have fails: "\<forall>a < nat (max_retries Q + 1). attempt_fails L aquery question_text question_id
                 (passed_template prompt_template) a"
  proof (intro allI impI)
    fix a
    from assms(2) obtain t where
      t: "aquery question_text (passed_template prompt_template) a = Returns t"
         "\<forall>r. parse_answer L t question_id question_text \<noteq> Inr (Some r)"
      by blast
    then show "attempt_fails L aquery question_text question_id
                 (passed_template prompt_template) a"
      by (simp add: attempt_fails_def split: sum.splits option.splits)
  qed
  have attempts: "[0..<nat (max_retries Q + 1)] = [0, 1, 2, 3]"
    using assms(1) by (simp add: upt_conv_Cons)
  show ?thesis
    using query_with_retry_all_fail [OF fails]
    by (simp add: attempts create_failure_record_Inr calls_retry_trace)
qed

theorem retry_bound_witness:
  "max_retries Q0 = 3
   \<and> (\<lambda>q p n. Returns []) [63] (passed_template None) (2::nat) = Returns []
   \<and> parse_answer lib0 [] [49] [63] = Inr None
   \<and> (\<exists>r tr. query_with_retry lib0 Q0 (\<lambda>q p n. Returns []) [63] [49] None = (Inr r, tr)
         \<and> tr = retry_trace Q0 [63] (passed_template None) [0, 1, 2, 3]
         \<and> calls tr = 4
         \<and> answer r = query_failed \<and> answer_value r = is_blank
         \<and> answer_unit r = is_blank \<and> ref_id r = [])"
  using retry_bound [of Q0 "\<lambda>q p n. Returns []" "[63]" None lib0 "[49]"]
  by (simp add: Q0_def parse_answer_empty)

lemma json_match_no_brace: "125 \<notin> set text \<Longrightarrow> json_match text = None"
proof -
  assume "125 \<notin> set text"
  then have "\<forall>c \<in> set (rev (dropWhile (\<lambda>c. c \<noteq> 123) text)). c \<noteq> 125"
    by (auto dest: set_dropWhileD)
  then have "dropWhile (\<lambda>c. c \<noteq> 125) (rev (dropWhile (\<lambda>c. c \<noteq> 123) text)) = []"
    by (simp only: dropWhile_eq_Nil_conv) 
  then show ?thesis
    by (simp add: json_match_def)
qed

lemma parsed_field_lib0: "parsed_field lib0 text f = is_blank"
  by (simp add: parsed_field_def lib0_def)

lemma contains_subset: "contains s p \<Longrightarrow> set p \<subseteq> set s"
proof (induction s)
  case Nil
  then show ?case by simp
next
  case (Cons c s)
  from Cons.prems have "startswith (c # s) p \<or> contains s p" by simp
  then show ?case
  proof
    assume "startswith (c # s) p"
    then have "take (length p) (c # s) = p" by (simp add: startswith_def)
    then have "set p \<subseteq> set (c # s)" by (metis set_take_subset)
    then show ?thesis .
  next
    assume "contains s p"
    with Cons.IH show ?thesis by auto
  qed
qed

lemma split_no_sep: "sep \<notin> set s \<Longrightarrow> split sep s = [s]"
  by (induction s) auto

lemma paris_text:
  "str ''Paris is the capital.'' =
     [80, 97, 114, 105, 115, 32, 105, 115, 32, 116, 104, 101, 32, 99, 97, 112, 105, 116, 97,
      108, 46]"
  by (simp add: str_def)

lemma parse_answer_paris:
  "parse_answer lib0 (str ''Paris is the capital.'') [49] [63] =
   Inr (Some \<lparr>id' = [49], question = [63], answer = str ''Paris is the capital.'',
      answer_value = is_blank, answer_unit = is_blank, ref_id = [],
      supporting_materials = is_blank, explanation = is_blank\<rparr>)"
proof -
  let ?t = "[80, 97, 114, 105, 115, 32, 105, 115, 32, 116, 104, 101, 32, 99, 97, 112, 105, 116,
             97, 108, 46] :: pystr"
  have s: "strip ?t = ?t"
    by (simp add: strip_def strip_by_def isspace_def)
  have j: "try_parse_json lib0 ?t [49] [63] = Inr None"
    by (simp add: try_parse_json_def json_match_no_brace)
  have u: "\<not> contains (lower ?t) (str ''unable to answer'')"
  proof
    assume "contains (lower ?t) (str ''unable to answer'')"
    from contains_subset [OF this] show False
      by (simp add: lower_def str_def)
  qed
  have a: "parsed_answer_field lib0 ?t = ?t"
    using u
    by (simp add: parsed_answer_field_def parsed_field_lib0 Let_def split_no_sep s
        startswith_def str_def is_blank_def)
  have b: "?t \<noteq> is_blank"
    by (simp add: is_blank_def str_def)
  have r: "parse_ref_id lib0 (JString is_blank) = JArray []"
    by (simp add: parse_ref_id_def strip_is_blank)
  show ?thesis
    unfolding paris_text
    by (simp add: parse_answer_def s j a b r Let_def parsed_field_lib0 RAGAnswer_init_def
        validate_str_def
        validate_str_list_def parse_answer_value_def parse_answer_unit_def
        parse_supporting_materials_def parse_explanation_def strip_is_blank)
qed

text \<open>
  Claim C4. When the first upstream response is extracted into a record (and at least
  one attempt is allowed), \<open>query_with_retry\<close> returns that record after exactly one
  upstream call and no sleep, whatever the record and so whatever its quality score,
  which lies between 0 and 1; the quality threshold has no effect on the run.
\<close>

theorem no_retry_on_success:
  assumes "0 \<le> max_retries Q"
    and "aquery question_text (passed_template prompt_template) 0 = Returns t"
    and "parse_answer L t question_id question_text = Inr (Some r)"
  shows "query_with_retry L Q aquery question_text question_id prompt_template =
           (Inr r, [Aquery question_text (passed_template prompt_template)])
         \<and> calls (snd (query_with_retry L Q aquery question_text question_id
                          prompt_template)) = 1
         \<and> 0 \<le> calculate_quality_score r \<and> calculate_quality_score r \<le> 1
         \<and> query_with_retry L (Q\<lparr>quality_threshold := x\<rparr>) aquery question_text
              question_id prompt_template =
            query_with_retry L Q aquery question_text question_id prompt_template"
proof -
  have run: "query_with_retry L Q aquery question_text question_id prompt_template =
           (Inr r, [Aquery question_text (passed_template prompt_template)])"
    using assms by (simp add: query_with_retry_def attempts_nonempty Let_def)
  have thr: "query_with_retry L (Q\<lparr>quality_threshold := x\<rparr>) aquery question_text
              question_id prompt_template =
            query_with_retry L Q aquery question_text question_id prompt_template"
    by (simp add: query_with_retry_def query_loop_threshold)
  show ?thesis
    using calculate_quality_score_range [of r]
    by (simp add: run thr calls_def)
qed

theorem no_retry_on_success_witness:
  "0 \<le> max_retries Q0
   \<and> (\<lambda>q p n. Returns (str ''Paris is the capital.'')) [63] (passed_template None) (0::nat)
       = Returns (str ''Paris is the capital.'')
   \<and> calculate_quality_score
        \<lparr>id' = [49], question = [63], answer = str ''Paris is the capital.'',
         answer_value = is_blank, answer_unit = is_blank, ref_id = [],
         supporting_materials = is_blank, explanation = is_blank\<rparr> = 3 / 10
   \<and> query_with_retry lib0 Q0 (\<lambda>q p n. Returns (str ''Paris is the capital.'')) [63] [49] None
       = (Inr \<lparr>id' = [49], question = [63], answer = str ''Paris is the capital.'',
                answer_value = is_blank, answer_unit = is_blank, ref_id = [],
                supporting_materials = is_blank, explanation = is_blank\<rparr>,
          [Aquery [63] None])
   \<and> calls (snd (query_with_retry lib0 Q0 (\<lambda>q p n. Returns (str ''Paris is the capital.''))
                    [63] [49] None)) = 1"
proof -
  have h1: "0 \<le> max_retries Q0" by (simp add: Q0_def)
  have h2: "(\<lambda>q p n. Returns (str ''Paris is the capital.'')) [63] (passed_template None) (0::nat)
       = Returns (str ''Paris is the capital.'')" by simp
  have sc: "calculate_quality_score
        \<lparr>id' = [49], question = [63], answer = str ''Paris is the capital.'',
         answer_value = is_blank, answer_unit = is_blank, ref_id = [],
         supporting_materials = is_blank, explanation = is_blank\<rparr> = 3 / 10"
    by (simp add: calculate_quality_score_def is_blank_def str_def)
  show ?thesis
    using no_retry_on_success [OF h1 h2 parse_answer_paris] h1 sc
    by (simp add: passed_template_def calls_def)
qed


lemma snd_fail_step_last:
  "\<not> int a < max_retries Q \<Longrightarrow>
   attempt_fails L aquery question_text question_id param a \<Longrightarrow>
   snd (fail_step L Q aquery question_text question_id param a st) =
     Some (attempt_error L aquery question_text question_id param a)"
  by (simp add: fail_step_def attempt_error_def attempt_fails_def
      split: outcome.splits sum.splits)

lemma attempts_snoc: "0 \<le> mr \<Longrightarrow> [0..<nat (mr + 1)] = [0..<nat mr] @ [nat mr]"
proof -
  assume "0 \<le> mr"
  then have "nat (mr + 1) = Suc (nat mr)" by arith
  then show ?thesis by simp
qed

lemma query_with_retry_exhausted:
  assumes "0 \<le> max_retries Q"
    and "\<forall>a < nat (max_retries Q + 1). attempt_fails L aquery question_text question_id
                (passed_template prompt_template) a"
  shows "query_with_retry L Q aquery question_text question_id prompt_template =
         (create_failure_record L question_id question_text
            (last_returned aquery question_text (passed_template prompt_template)
               [0..<nat (max_retries Q + 1)])
            (Some (attempt_error L aquery question_text question_id
                     (passed_template prompt_template) (nat (max_retries Q)))),
          retry_trace Q question_text (passed_template prompt_template)
            [0..<nat (max_retries Q + 1)])"
proof -
  have "\<not> int (nat (max_retries Q)) < max_retries Q"
    using assms(1) by simp
  moreover have "attempt_fails L aquery question_text question_id
                   (passed_template prompt_template) (nat (max_retries Q))"
    using assms by simp
  ultimately have "snd (fold (fail_step L Q aquery question_text question_id
                          (passed_template prompt_template)) [0..<nat (max_retries Q + 1)]
                    (None, None)) =
             Some (attempt_error L aquery question_text question_id
                     (passed_template prompt_template) (nat (max_retries Q)))"
    by (simp add: attempts_snoc [OF assms(1)] snd_fail_step_last)
  with query_with_retry_all_fail [OF assms(2)] show ?thesis
    by simp
qed

lemma query_loop_cancelled:
  assumes "\<forall>a \<in> set pre. attempt_fails L aquery question_text question_id
                (passed_template prompt_template) a"
    and "\<forall>a \<in> set pre. int a < max_retries Q"
    and "aquery question_text (passed_template prompt_template) k = Cancelled"
  shows "query_loop L Q aquery question_text question_id prompt_template (pre @ k # rest)
           last_response last_error tr =
         (Inl CancelledError,
          tr @ retry_trace Q question_text (passed_template prompt_template) pre
             @ [Aquery question_text (passed_template prompt_template)])"
  using assms(1,2)
proof (induction pre arbitrary: last_response last_error tr)
  case Nil
  show ?case using assms(3) by (simp add: retry_trace_Nil Let_def)
next
  case (Cons a pre)
  let ?p = "passed_template prompt_template"
  have pre_fail: "\<forall>a \<in> set pre. attempt_fails L aquery question_text question_id ?p a"
    and pre_low: "\<forall>a \<in> set pre. int a < max_retries Q"
    and a_fails: "attempt_fails L aquery question_text question_id ?p a"
    and a_low: "int a < max_retries Q"
    using Cons.prems by simp_all
  note IH = Cons.IH [OF pre_fail pre_low]
  show ?case
  proof (cases "aquery question_text ?p a")
    case Cancelled
    with a_fails show ?thesis
      by (simp add: attempt_fails_def)
  next
    case (Raises m)
    then show ?thesis
      using a_low by (simp add: IH Let_def retry_trace_Cons)
  next
    case (Returns t)
    show ?thesis
    proof (cases "parse_answer L t question_id question_text")
      case (Inl e)
      from parse_answer_exception_class [OF Inl] Returns Inl show ?thesis
        using a_low by (simp add: IH Let_def retry_trace_Cons)
    next
      case (Inr x)
      with Returns a_fails have none: "x = None"
        by (cases x) (simp_all add: attempt_fails_def)
      with Returns Inr show ?thesis
        using a_low by (simp add: IH Let_def retry_trace_Cons)
    qed
  qed
qed

lemma attempts_split:
  assumes "k < n"
  shows "[0..<n] = [0..<k] @ k # [Suc k..<n]"
proof -
  from assms have "[0..<n] = [0..<k + (n - k)]" by simp
  also have "\<dots> = [0..<k] @ [k..<k + (n - k)]" by (rule upt_add_eq_append) simp
  also have "[k..<k + (n - k)] = k # [Suc k..<n]" using assms by (simp add: upt_conv_Cons)
  finally show ?thesis .
qed

lemma query_with_retry_cancelled:
  assumes "k < nat (max_retries Q + 1)"
    and "\<forall>a < k. attempt_fails L aquery question_text question_id
                (passed_template prompt_template) a"
    and "aquery question_text (passed_template prompt_template) k = Cancelled"
  shows "query_with_retry L Q aquery question_text question_id prompt_template =
         (Inl CancelledError,
          retry_trace Q question_text (passed_template prompt_template) [0..<k]
            @ [Aquery question_text (passed_template prompt_template)])"
proof -
  have f: "\<forall>a \<in> set [0..<k]. attempt_fails L aquery question_text question_id
             (passed_template prompt_template) a"
    using assms(2) by simp
  have l: "\<forall>a \<in> set [0..<k]. int a < max_retries Q"
    using assms(1) by auto
  show ?thesis
    unfolding query_with_retry_def attempts_split [OF assms(1)]
    using query_loop_cancelled [OF f l assms(3)] by simp
qed

text \<open>
  Claim C2, amended. When no upstream call ends with \<open>asyncio.CancelledError\<close>, so each
  one returns a text or raises an exception of class \<open>Exception\<close>, \<open>query_with_retry\<close>
  returns a record, whatever the extractor does, and no exception leaves it. A call
  that ends with \<open>asyncio.CancelledError\<close> after failed attempts is not caught: the
  exception leaves \<open>query_with_retry\<close> right after that call, with no sleep, no further
  call and no record. An attempt that raises an exception of class \<open>Exception\<close> (in the
  upstream call or in the extractor) is a failed attempt on the retry path of a format
  failure: when every attempt fails, the trace is the same alternation of calls and
  backoff sleeps whatever mix of exceptions and unparsable responses occurred. The
  reason recorded in the failure record is that of the final attempt: the message of
  the exception it raised, after the marker and a colon and stripped of surrounding
  whitespace, or the fixed format-failure reason when it returned an unparsable text,
  whatever earlier attempts raised.
\<close>

theorem retry_never_raises:
  "((\<forall>a < nat (max_retries Q + 1).
        aquery question_text (passed_template prompt_template) a \<noteq> Cancelled) \<longrightarrow>
      (\<exists>r tr. query_with_retry L Q aquery question_text question_id prompt_template
                 = (Inr r, tr)))
   \<and> (\<forall>k < nat (max_retries Q + 1).
        (\<forall>a < k. attempt_fails L aquery question_text question_id
                   (passed_template prompt_template) a)
        \<and> aquery question_text (passed_template prompt_template) k = Cancelled \<longrightarrow>
        query_with_retry L Q aquery question_text question_id prompt_template =
          (Inl CancelledError,
           retry_trace Q question_text (passed_template prompt_template) [0..<k]
             @ [Aquery question_text (passed_template prompt_template)]))
   \<and> (0 \<le> max_retries Q
        \<and> (\<forall>a < nat (max_retries Q + 1). attempt_fails L aquery question_text question_id
               (passed_template prompt_template) a) \<longrightarrow>
       (\<exists>r. query_with_retry L Q aquery question_text question_id prompt_template =
               (Inr r, retry_trace Q question_text (passed_template prompt_template)
                         [0..<nat (max_retries Q + 1)])
          \<and> answer r = query_failed
          \<and> supporting_materials r =
              strip (query_failed @ [58, 32]
                     @ exn_str L (attempt_error L aquery question_text question_id
                                    (passed_template prompt_template)
                                    (nat (max_retries Q))))))"
proof (intro conjI impI allI)
  assume "\<forall>a < nat (max_retries Q + 1).
            aquery question_text (passed_template prompt_template) a \<noteq> Cancelled"
  then have "\<forall>a \<in> set [0..<nat (max_retries Q + 1)].
               aquery question_text (passed_template prompt_template) a \<noteq> Cancelled"
    by simp
  then show "\<exists>r tr. query_with_retry L Q aquery question_text question_id prompt_template
          = (Inr r, tr)"
    unfolding query_with_retry_def by (rule query_loop_returns)
next
  fix k
  assume k: "k < nat (max_retries Q + 1)"
    and h: "(\<forall>a < k. attempt_fails L aquery question_text question_id
                   (passed_template prompt_template) a)
        \<and> aquery question_text (passed_template prompt_template) k = Cancelled"
  from h have h1: "\<forall>a < k. attempt_fails L aquery question_text question_id
                   (passed_template prompt_template) a"
    and h2: "aquery question_text (passed_template prompt_template) k = Cancelled"
    by blast+
  show "query_with_retry L Q aquery question_text question_id prompt_template =
          (Inl CancelledError,
           retry_trace Q question_text (passed_template prompt_template) [0..<k]
             @ [Aquery question_text (passed_template prompt_template)])"
    by (rule query_with_retry_cancelled [OF k h1 h2])
next
  assume h: "0 \<le> max_retries Q
        \<and> (\<forall>a < nat (max_retries Q + 1). attempt_fails L aquery question_text question_id
               (passed_template prompt_template) a)"
  then have h1: "0 \<le> max_retries Q"
    and h2: "\<forall>a < nat (max_retries Q + 1). attempt_fails L aquery question_text question_id
               (passed_template prompt_template) a"
    by blast+
  show "\<exists>r. query_with_retry L Q aquery question_text question_id prompt_template =
               (Inr r, retry_trace Q question_text (passed_template prompt_template)
                         [0..<nat (max_retries Q + 1)])
          \<and> answer r = query_failed
          \<and> supporting_materials r =
              strip (query_failed @ [58, 32]
                     @ exn_str L (attempt_error L aquery question_text question_id
                                    (passed_template prompt_template)
                                    (nat (max_retries Q))))"
    by (simp add: query_with_retry_exhausted [OF h1 h2] create_failure_record_Inr
        failure_reason_def)
qed

theorem retry_never_raises_witness:
  "0 \<le> max_retries Q0
   \<and> attempt_fails lib0 (\<lambda>q p n. Raises (str ''boom '')) [63] [49] (passed_template None) 3
   \<and> (\<exists>r tr. query_with_retry lib0 Q0 (\<lambda>q p n. Raises (str ''boom '')) [63] [49] None
                = (Inr r, tr))
   \<and> (\<exists>r. query_with_retry lib0 Q0 (\<lambda>q p n. Raises (str ''boom '')) [63] [49] None =
             (Inr r, [Aquery [63] None, Sleep 1, Aquery [63] None, Sleep 2,
                      Aquery [63] None, Sleep 3, Aquery [63] None])
          \<and> answer r = query_failed
          \<and> supporting_materials r = query_failed @ [58, 32] @ str ''boom'')
   \<and> attempt_fails lib0 (\<lambda>q p n. if n = 0 then Raises (str ''boom'') else Cancelled)
         [63] [49] (passed_template None) 0
   \<and> (\<lambda>q p n. if n = 0 then Raises (str ''boom'') else Cancelled) [63] (passed_template None)
         (1::nat) = Cancelled
   \<and> query_with_retry lib0 Q0 (\<lambda>q p n. if n = 0 then Raises (str ''boom'') else Cancelled)
         [63] [49] None =
       (Inl CancelledError, [Aquery [63] None, Sleep 1, Aquery [63] None])"
proof -
  let ?aq = "\<lambda>(q::pystr) (p::pystr option) (n::nat).
               if n = 0 then Raises (str ''boom'') else Cancelled"
  have f: "\<forall>a < nat (max_retries Q0 + 1).
             attempt_fails lib0 (\<lambda>q p n. Raises (str ''boom '')) [63] [49] (passed_template None) a"
    by (simp add: attempt_fails_def)
  have s: "strip (query_failed @ 58 # 32 # str ''boom '') = query_failed @ 58 # 32 # str ''boom''"
    by (simp add: strip_def strip_by_def isspace_def query_failed_def str_def)
  have t: "retry_trace Q0 [63] None [0..<nat (max_retries Q0 + 1)] =
      [Aquery [63] None, Sleep 1, Aquery [63] None, Sleep 2,
                      Aquery [63] None, Sleep 3, Aquery [63] None]"
    by (simp add: Q0_def retry_trace_def upt_conv_Cons)
  have p: "passed_template None = None"
    by (simp add: passed_template_def)
  have m: "0 \<le> max_retries Q0" "nat (max_retries Q0) = 3"
    by (simp_all add: Q0_def)
  have a: "\<exists>r tr. query_with_retry lib0 Q0 (\<lambda>q p n. Raises (str ''boom '')) [63] [49] None
                = (Inr r, tr)"
    and b: "\<exists>r. query_with_retry lib0 Q0 (\<lambda>q p n. Raises (str ''boom '')) [63] [49] None =
             (Inr r, [Aquery [63] None, Sleep 1, Aquery [63] None, Sleep 2,
                      Aquery [63] None, Sleep 3, Aquery [63] None])
          \<and> answer r = query_failed
          \<and> supporting_materials r = query_failed @ [58, 32] @ str ''boom''"
    using retry_never_raises [of Q0 "\<lambda>q p n. Raises (str ''boom '')" "[63]" None lib0 "[49]"] f
    by (simp_all add: attempt_error_def exn_str_def s t p m attempt_fails_def)
  have f0: "attempt_fails lib0 ?aq [63] [49] (passed_template None) 0"
    by (simp add: attempt_fails_def)
  have c1: "?aq [63] (passed_template None) (1::nat) = Cancelled"
    by simp
  have t1: "retry_trace Q0 [63] None [0..<1] = [Aquery [63] None, Sleep 1]"
    by (simp add: Q0_def retry_trace_def)
  have k: "(1::nat) < nat (max_retries Q0 + 1)"
    by (simp add: Q0_def)
  have c: "query_with_retry lib0 Q0 ?aq [63] [49] None =
       (Inl CancelledError, [Aquery [63] None, Sleep 1, Aquery [63] None])"
    using retry_never_raises [of Q0 ?aq "[63]" None lib0 "[49]", THEN conjunct2,
        THEN conjunct1, rule_format, OF k] f0 c1 t1
    by (simp add: p)
  show ?thesis
    by (intro conjI m(1) f [rule_format] a b f0 c1 c) (simp add: Q0_def)
qed

text \<open>
  The claim as stated fails in two ways. The first attempt raises \<open>boom\<close>, the three
  other attempts return an empty text, the retries are exhausted, and the recorded
  reason is the format failure; the message of the exception is not in the record. And
  an upstream call that ends with \<open>asyncio.CancelledError\<close> is not caught: the exception
  leaves \<open>query_with_retry\<close> after that one call, and no record is returned.
\<close>

theorem exception_message_counterexample:
  "(\<lambda>q p n. if n = 0 then Raises (str ''boom'') else Returns []) [63] (None :: pystr option)
       (0::nat) = Raises (str ''boom'')
   \<and> (\<exists>r tr. query_with_retry lib0 Q0
                (\<lambda>q p n. if n = 0 then Raises (str ''boom'') else Returns []) [63] [49] None
                = (Inr r, tr)
         \<and> calls tr = 4 \<and> answer r = query_failed
         \<and> supporting_materials r = query_failed @ [58, 32] @ format_failed
         \<and> \<not> contains (supporting_materials r) (str ''boom''))
   \<and> query_with_retry lib0 Q0 (\<lambda>q p n. Cancelled) [63] [49] None =
       (Inl CancelledError, [Aquery [63] None])"
proof -
  let ?aq = "\<lambda>(q::pystr) (p::pystr option) (n::nat). if n = 0 then Raises (str ''boom'') else Returns []"
  have f: "\<forall>a < nat (max_retries Q0 + 1). attempt_fails lib0 ?aq [63] [49] (passed_template None) a"
    by (simp add: attempt_fails_def parse_answer_empty)
  have e: "attempt_error lib0 ?aq [63] [49] (passed_template None) (nat (max_retries Q0))
             = Exception format_failed"
    by (simp add: attempt_error_def parse_answer_empty Q0_def)
  have s: "failure_reason lib0 (Some (Exception format_failed))
             = query_failed @ [58, 32] @ format_failed"
    by (simp add: failure_reason_def exn_str_def strip_def strip_by_def isspace_def
        query_failed_def format_failed_def)
  have c: "\<not> contains (query_failed @ [58, 32] @ format_failed) (str ''boom'')"
    by (simp add: query_failed_def format_failed_def str_def startswith_def)
  have m: "0 \<le> max_retries Q0" by (simp add: Q0_def)
  have n: "nat (max_retries Q0 + 1) = 4" by (simp add: Q0_def)
  have k: "(0::nat) < nat (max_retries Q0 + 1)" by (simp add: Q0_def)
  have x: "query_with_retry lib0 Q0 (\<lambda>q p n. Cancelled) [63] [49] None =
       (Inl CancelledError, [Aquery [63] None])"
    using query_with_retry_cancelled [OF k, of lib0 "\<lambda>q p n. Cancelled" "[63]" "[49]" None]
    by (simp add: retry_trace_Nil passed_template_def)
  show ?thesis
    using c
    by (simp add: query_with_retry_exhausted [OF m f] e create_failure_record_Inr s
        calls_retry_trace n x)
qed


text \<open>
  Claim C8, amended. When every attempt fails, the \<open>explanation\<close> of the failure
  record is the placeholder when no response was obtained or the last response obtained
  is empty; when the last response has more than 200 characters, a label, then its first
  200 characters, then the ellipsis of three dots; otherwise the last response with its
  surrounding whitespace stripped.
\<close>

theorem failure_record_explanation:
  assumes "\<forall>a < nat (max_retries Q + 1). attempt_fails L aquery question_text question_id
                (passed_template prompt_template) a"
  shows "\<exists>r tr. query_with_retry L Q aquery question_text question_id prompt_template
                  = (Inr r, tr)
           \<and> answer r = query_failed
           \<and> explanation r =
               (case last_returned aquery question_text (passed_template prompt_template)
                       [0..<nat (max_retries Q + 1)] of
                  None \<Rightarrow> no_response
                | Some t \<Rightarrow>
                    if t = [] then no_response
                    else if 200 < length t
                      then last_response_label @ take 200 t @ str ''...''
                    else strip t)"
  by (simp add: query_with_retry_all_fail [OF assms] create_failure_record_Inr
      failure_explanation_def)

lemma parse_answer_short_lib0:
  assumes "125 \<notin> set (strip t)"
    and "length (strip (hd (split 10 (strip t)))) \<le> 10
         \<or> startswith (strip (hd (split 10 (strip t)))) [123]"
    and "117 \<notin> set (lower (strip t))"
  shows "parse_answer lib0 t question_id question_text = Inr None"
proof -
  have j: "try_parse_json lib0 (strip t) question_id question_text = Inr None"
    using assms(1) by (simp add: try_parse_json_def json_match_no_brace)
  have u: "\<not> contains (lower (strip t)) (str ''unable to answer'')"
  proof
    assume "contains (lower (strip t)) (str ''unable to answer'')"
    from contains_subset [OF this] assms(3) show False
      by (simp add: str_def)
  qed
  have a: "parsed_answer_field lib0 (strip t) = is_blank"
    using u assms(2)
    by (auto simp add: parsed_answer_field_def parsed_field_lib0 Let_def)
  show ?thesis
    by (simp add: parse_answer_def j a Let_def)
qed

lemma parse_answer_na: "parse_answer lib0 (str ''n/a '') question_id question_text = Inr None"
proof -
  have s: "strip (str ''n/a '') = str ''n/a''"
    by (simp add: strip_def strip_by_def isspace_def str_def)
  show ?thesis
    by (rule parse_answer_short_lib0)
       (simp_all add: s, simp_all add: str_def lower_def strip_def strip_by_def isspace_def)
qed

theorem failure_record_explanation_witness:
  "attempt_fails lib0 (\<lambda>q p n. Returns (str ''n/a '')) [63] [49] (passed_template None) 3
   \<and> (\<exists>r tr. query_with_retry lib0 Q0 (\<lambda>q p n. Returns (str ''n/a '')) [63] [49] None
                 = (Inr r, tr)
          \<and> answer r = query_failed
          \<and> explanation r = str ''n/a'')"
proof -
  have f: "\<forall>a < nat (max_retries Q0 + 1).
             attempt_fails lib0 (\<lambda>q p n. Returns (str ''n/a '')) [63] [49]
               (passed_template None) a"
    by (simp add: attempt_fails_def parse_answer_na)
  have l: "last_returned (\<lambda>q p n. Returns (str ''n/a '')) [63] (passed_template None)
             [0..<nat (max_retries Q0 + 1)] = Some (str ''n/a '')"
    by (simp add: last_returned_def Q0_def upt_conv_Cons)
  have s: "strip (str ''n/a '') = str ''n/a''"
    by (simp add: strip_def strip_by_def isspace_def str_def)
  have n: "str ''n/a '' \<noteq> []" "\<not> 200 < length (str ''n/a '')"
    by (simp_all add: str_def)
  show ?thesis
    using failure_record_explanation [OF f]
    by (simp add: l s n attempt_fails_def parse_answer_na)
qed

lemma parse_answer_space: "parse_answer L [32] question_id question_text = Inr None"
  by (simp add: parse_answer_def strip_def strip_by_def isspace_def)

lemma parse_answer_long:
  "parse_answer lib0 (123 # replicate 200 97) question_id question_text = Inr None"
proof -
  have s: "strip (123 # replicate 200 97) = 123 # replicate 200 97"
    unfolding strip_def by (rule strip_by_noop) (simp_all add: isspace_def)
  show ?thesis
    by (rule parse_answer_short_lib0)
       (simp_all add: s lower_def split_no_sep startswith_def)
qed


lemma fold_const_Some: "fold (\<lambda>a acc. Some t) attempts x = (if attempts = [] then x else Some t)"
  by (induction attempts arbitrary: x) simp_all

lemma last_returned_const:
  "last_returned (\<lambda>q p n. Returns t) question_text param attempts =
     (if attempts = [] then None else Some t)"
  by (simp add: last_returned_def fold_const_Some)

lemma max_retries_Q0: "max_retries Q0 = 3"
  by (simp add: Q0_def)

text \<open>
  The claim as stated fails. A last response of one space gives the empty explanation,
  neither a copy of the response nor the placeholder; an empty last response gives the
  placeholder although a response was obtained; a last response of 201 characters gives
  209 characters, the copy of its first 200 standing between a label and the ellipsis.
\<close>

theorem explanation_copy_counterexample:
  "(\<exists>r tr. query_with_retry lib0 Q0 (\<lambda>q p n. Returns [32]) [63] [49] None = (Inr r, tr)
        \<and> answer r = query_failed
        \<and> last_returned (\<lambda>q p n. Returns [32]) [63] None [0, 1, 2, 3] = Some [32]
        \<and> explanation r = [] \<and> explanation r \<noteq> [32] \<and> explanation r \<noteq> no_response)
   \<and> (\<exists>r tr. query_with_retry lib0 Q0 (\<lambda>q p n. Returns []) [63] [49] None = (Inr r, tr)
        \<and> answer r = query_failed
        \<and> last_returned (\<lambda>q p n. Returns []) [63] None [0, 1, 2, 3] = Some []
        \<and> explanation r = no_response \<and> explanation r \<noteq> [])
   \<and> (\<exists>r tr. query_with_retry lib0 Q0 (\<lambda>q p n. Returns (123 # replicate 200 97)) [63] [49]
                 None = (Inr r, tr)
        \<and> answer r = query_failed
        \<and> explanation r = last_response_label @ 123 # replicate 199 97 @ str ''...''
        \<and> length (explanation r) = 209)"
proof -
  have f1: "\<forall>a < nat (max_retries Q0 + 1).
              attempt_fails lib0 (\<lambda>q p n. Returns [32]) [63] [49] (passed_template None) a"
    by (simp add: attempt_fails_def parse_answer_space)
  have f2: "\<forall>a < nat (max_retries Q0 + 1).
              attempt_fails lib0 (\<lambda>q p n. Returns []) [63] [49] (passed_template None) a"
    by (simp add: attempt_fails_def parse_answer_empty)
  have f3: "\<forall>a < nat (max_retries Q0 + 1).
              attempt_fails lib0 (\<lambda>q p n. Returns (123 # replicate 200 97)) [63] [49]
                (passed_template None) a"
    by (simp add: attempt_fails_def parse_answer_long)
  have s: "strip [32] = []"
    by (simp add: strip_def strip_by_def isspace_def)
  have n: "no_response \<noteq> []" by (simp add: no_response_def)
  have c1: "\<exists>r tr. query_with_retry lib0 Q0 (\<lambda>q p n. Returns [32]) [63] [49] None = (Inr r, tr)
        \<and> answer r = query_failed
        \<and> last_returned (\<lambda>q p n. Returns [32]) [63] None [0, 1, 2, 3] = Some [32]
        \<and> explanation r = [] \<and> explanation r \<noteq> [32] \<and> explanation r \<noteq> no_response"
    using n
    by (simp add: query_with_retry_all_fail [OF f1] create_failure_record_Inr
        last_returned_const max_retries_Q0 failure_explanation_def s)
  have c2: "\<exists>r tr. query_with_retry lib0 Q0 (\<lambda>q p n. Returns []) [63] [49] None = (Inr r, tr)
        \<and> answer r = query_failed
        \<and> last_returned (\<lambda>q p n. Returns []) [63] None [0, 1, 2, 3] = Some []
        \<and> explanation r = no_response \<and> explanation r \<noteq> []"
    using n
    by (simp add: query_with_retry_all_fail [OF f2] create_failure_record_Inr
        last_returned_const max_retries_Q0 failure_explanation_def)
  have c3: "\<exists>r tr. query_with_retry lib0 Q0 (\<lambda>q p n. Returns (123 # replicate 200 97)) [63] [49]
                 None = (Inr r, tr)
        \<and> answer r = query_failed
        \<and> explanation r = last_response_label @ 123 # replicate 199 97 @ str ''...''
        \<and> length (explanation r) = 209"
    by (simp add: query_with_retry_all_fail [OF f3] create_failure_record_Inr
        last_returned_const max_retries_Q0 failure_explanation_def last_response_label_def str_def)
  from c1 c2 c3 show ?thesis by blast
qed


section \<open>The extractor and the validator of \<open>ref_id\<close>\<close>

lemma json_loads_answer_null:
  "json_loads [123, 34, 97, 110, 115, 119, 101, 114, 34, 58, 32, 110, 117, 108, 108, 125]
   = Some (JObject [(str ''answer'', JNull)])"
  by (simp add: json_loads_def skip_ws_def json_ws_def next_char_def expect_def scan_atom_def
      str_def cons_char_def)

text \<open>
  Claim C3, at the failing input. The text is an object whose \<open>answer\<close> is \<open>null\<close>:
  the braces are found, the text decodes as JSON, and the constructor rejects \<open>None\<close>
  for \<open>answer\<close>. \<open>_try_parse_json\<close> catches \<open>JSONDecodeError\<close> only, so
  \<open>ValidationError\<close> leaves it, and leaves \<open>parse_answer\<close>, which calls it outside
  every \<open>try\<close>: the embedded-object stage is not passed over in silence here.
\<close>

theorem try_parse_json_raises:
  "try_parse_json L
     [123, 34, 97, 110, 115, 119, 101, 114, 34, 58, 32, 110, 117, 108, 108, 125]
     question_id question_text = Inl ValidationError
   \<and> parse_answer L
     [123, 34, 97, 110, 115, 119, 101, 114, 34, 58, 32, 110, 117, 108, 108, 125]
     question_id question_text = Inl ValidationError"
proof -
  let ?t = "[123, 34, 97, 110, 115, 119, 101, 114, 34, 58, 32, 110, 117, 108, 108, 125] :: pystr"
  have m: "json_match ?t = Some ?t"
    by (simp add: json_match_def)
  have s: "strip ?t = ?t"
    by (simp add: strip_def strip_by_def isspace_def)
  have j: "try_parse_json L ?t question_id question_text = Inl ValidationError"
    by (simp add: try_parse_json_def m json_loads_answer_null dict_get_def str_def
        RAGAnswer_init_def validate_str_def)
  show ?thesis
    by (simp add: j parse_answer_def s)
qed

lemma JSONArray_gives_array:
  "JSONArray n s vs = Some (j, r) \<Longrightarrow> \<exists>xs. j = JArray xs"
proof (induction n arbitrary: s vs)
  case 0
  then show ?case by simp
next
  case (Suc n)
  then show ?case
    by (auto split: option.splits prod.splits if_splits)
qed

lemma json_loads_bracket:
  assumes "startswith v [91]" and "json_loads v = Some j"
  shows "\<exists>xs. j = JArray xs"
proof -
  from assms(1) obtain w where v: "v = 91 # w"
    by (cases v) (simp_all add: startswith_def)
  from assms(2) obtain r where "scan_once (Suc (length v)) v = Some (j, r)"
    by (auto simp: json_loads_def v skip_ws_def json_ws_def split: option.splits if_splits)
  then show ?thesis
    by (auto simp: v simp del: JSONArray.simps dest: JSONArray_gives_array
        split: option.splits if_splits)
qed

text \<open>
  Claim C6. The validator of \<open>ref_id\<close> on a string, by the stripped text: the sentinel
  or nothing gives the empty list; a text in brackets that \<open>json.loads\<close> decodes gives
  the decoded value, a list; otherwise a text with a comma gives its pieces, each
  stripped of whitespace and then of quotes; otherwise the text, stripped the same way,
  is the one element.
\<close>

theorem parse_ref_id_rules:
  "(strip s = is_blank \<or> strip s = [] \<longrightarrow> parse_ref_id L (JString s) = JArray [])
   \<and> (strip s \<noteq> is_blank \<and> strip s \<noteq> [] \<and> startswith (strip s) [91]
        \<and> endswith (strip s) [93] \<and> json_loads (strip s) = Some j \<longrightarrow>
       parse_ref_id L (JString s) = j \<and> (\<exists>xs. j = JArray xs))
   \<and> (strip s \<noteq> is_blank \<and> strip s \<noteq> []
        \<and> \<not> (startswith (strip s) [91] \<and> endswith (strip s) [93]
              \<and> json_loads (strip s) \<noteq> None)
        \<and> 44 \<in> set (strip s) \<longrightarrow>
       parse_ref_id L (JString s) =
         JArray (map (\<lambda>item. JString (strip_chars [34, 39] (strip item)))
                   (split 44 (strip s))))
   \<and> (strip s \<noteq> is_blank \<and> strip s \<noteq> []
        \<and> \<not> (startswith (strip s) [91] \<and> endswith (strip s) [93]
              \<and> json_loads (strip s) \<noteq> None)
        \<and> 44 \<notin> set (strip s) \<longrightarrow>
       parse_ref_id L (JString s) = JArray [JString (strip_chars [34, 39] (strip (strip s)))])"
proof (intro conjI impI)
  assume "strip s = is_blank \<or> strip s = []"
  then show "parse_ref_id L (JString s) = JArray []"
    by (auto simp: parse_ref_id_def Let_def)
next
  assume h: "strip s \<noteq> is_blank \<and> strip s \<noteq> [] \<and> startswith (strip s) [91]
        \<and> endswith (strip s) [93] \<and> json_loads (strip s) = Some j"
  then show "parse_ref_id L (JString s) = j"
    by (simp add: parse_ref_id_def Let_def)
  from h show "\<exists>xs. j = JArray xs"
    using json_loads_bracket by blast
next
  assume "strip s \<noteq> is_blank \<and> strip s \<noteq> []
        \<and> \<not> (startswith (strip s) [91] \<and> endswith (strip s) [93]
              \<and> json_loads (strip s) \<noteq> None)
        \<and> 44 \<in> set (strip s)"
  then show "parse_ref_id L (JString s) =
         JArray (map (\<lambda>item. JString (strip_chars [34, 39] (strip item)))
                   (split 44 (strip s)))"
    by (auto simp: parse_ref_id_def Let_def)
next
  assume "strip s \<noteq> is_blank \<and> strip s \<noteq> []
        \<and> \<not> (startswith (strip s) [91] \<and> endswith (strip s) [93]
              \<and> json_loads (strip s) \<noteq> None)
        \<and> 44 \<notin> set (strip s)"
  then show "parse_ref_id L (JString s) = JArray [JString (strip_chars [34, 39] (strip (strip s)))]"
    by (auto simp: parse_ref_id_def Let_def)
qed


section \<open>The round trip of \<open>ref_id\<close> through its JSON text\<close>

lemma hexval_hexdigit: "d < 16 \<Longrightarrow> hexval (hexdigit d) = Some d"
  by (simp add: hexval_def hexdigit_def)

lemma hex4_value:
  assumes "n < 65536"
  shows "((n div 4096 mod 16 * 16 + n div 256 mod 16) * 16 + n div 16 mod 16) * 16 + n mod 16
     = (n::nat)"
proof -
  define q1 where "q1 = n div 16"
  define q2 where "q2 = q1 div 16"
  define q3 where "q3 = q2 div 16"
  have e2: "n div 256 = q2"
    unfolding q2_def q1_def by (simp add: div_mult2_eq [symmetric])
  have e3: "n div 4096 = q3"
    unfolding q3_def q2_def q1_def by (simp add: div_mult2_eq [symmetric])
  from assms have "n div 4096 < 16"
    by (simp add: less_mult_imp_div_less)
  then have s3: "q3 mod 16 = q3"
    by (simp add: e3)
  have s2: "q3 * 16 + q2 mod 16 = q2"
    unfolding q3_def by (rule div_mult_mod_eq)
  have s1: "q2 * 16 + q1 mod 16 = q1"
    unfolding q2_def by (rule div_mult_mod_eq)
  have s0: "q1 * 16 + n mod 16 = n"
    unfolding q1_def by (rule div_mult_mod_eq)
  show ?thesis
    unfolding e2 e3 q1_def [symmetric] s3 s2 s1 s0 ..
qed

lemma decode_digits:
  assumes "a < 16" and "b < 16" and "c < 16" and "d < 16"
  shows "decode_uXXXX (hexdigit a # hexdigit b # hexdigit c # hexdigit d # tail)
           = Some (((a * 16 + b) * 16 + c) * 16 + d)"
  by (simp only: decode_uXXXX.simps hexval_hexdigit [OF assms(1)] hexval_hexdigit [OF assms(2)]
      hexval_hexdigit [OF assms(3)] hexval_hexdigit [OF assms(4)] prod.case option.case)

lemma hex4_Cons:
  "hex4 n @ tail =
     hexdigit (n div 4096 mod 16) # hexdigit (n div 256 mod 16) #
     hexdigit (n div 16 mod 16) # hexdigit (n mod 16) # tail"
  by (simp only: hex4_def append_Cons append_Nil)

lemma decode_hex4:
  assumes "n < 65536"
  shows "decode_uXXXX (hex4 n @ tail) = Some n"
proof -
  have "decode_uXXXX (hex4 n @ tail) =
          Some (((n div 4096 mod 16 * 16 + n div 256 mod 16) * 16 + n div 16 mod 16) * 16
                + n mod 16)"
    unfolding hex4_Cons by (rule decode_digits) simp_all
  then show ?thesis
    by (simp only: hex4_value [OF assms])
qed

lemma length_hex4: "length (hex4 n) = 4"
  by (simp add: hex4_def)

lemma drop_hex4: "drop 4 (hex4 n @ tail) = tail"
  using length_hex4 [of n] by simp

lemma drop_hex4': "drop 6 (hex4 n @ tail) = drop 2 tail"
  using length_hex4 [of n] by simp

lemma scanstring_u_escape:
  assumes "n < 65536" and "high_surrogate n \<Longrightarrow> unjoined tail"
  shows "scanstring (u_escape n @ tail) = cons_char n (scanstring tail)"
proof (cases "high_surrogate n")
  case False
  then show ?thesis
    by (auto simp add: u_escape_def decode_hex4 [OF assms(1)] length_hex4 high_surrogate_def)
next
  case True
  from assms(2) [OF True] show ?thesis
    unfolding unjoined_def
    by (auto simp add: u_escape_def decode_hex4 [OF assms(1)] length_hex4 drop_hex4'
        low_surrogate_def split: option.splits)
qed

lemma scanstring_surrogates:
  assumes "0x10000 \<le> c" and "c < 0x110000"
  shows "scanstring (u_escape (0xD800 + (c - 0x10000) div 1024 mod 1024)
                     @ u_escape (0xDC00 + (c - 0x10000) mod 1024) @ tail)
         = cons_char c (scanstring tail)"
proof -
  define m where "m = c - 0x10000"
  define hi where "hi = 0xD800 + m div 1024 mod 1024"
  define lo where "lo = 0xDC00 + m mod 1024"
  from assms have "m < 1024 * 1024" by (simp add: m_def)
  then have dv: "m div 1024 < 1024"
    by (simp add: less_mult_imp_div_less)
  then have md: "m div 1024 mod 1024 = m div 1024" by simp
  have hi: "hi < 65536" "0xD800 \<le> hi" "hi \<le> 0xDBFF"
    using dv by (simp_all add: hi_def md)
  have lo: "lo < 65536" "0xDC00 \<le> lo" "lo \<le> 0xDFFF"
    by (simp_all add: lo_def)
  have "(hi - 0xD800) * 1024 + (lo - 0xDC00) = m div 1024 * 1024 + m mod 1024"
    by (simp add: hi_def lo_def md)
  also have "\<dots> = m" by (rule div_mult_mod_eq)
  finally have joined: "0x10000 + ((hi - 0xD800) * 1024 + (lo - 0xDC00)) = c"
    using assms(1) by (simp add: m_def)
  have "scanstring (u_escape hi @ u_escape lo @ tail)
          = cons_char (0x10000 + ((hi - 0xD800) * 1024 + (lo - 0xDC00))) (scanstring tail)"
    using hi(2,3) lo(2,3)
    by (simp add: u_escape_def decode_hex4 [OF hi(1)] decode_hex4 [OF lo(1)] length_hex4)
  then have "scanstring (u_escape hi @ u_escape lo @ tail) = cons_char c (scanstring tail)"
    by (simp only: joined)
  then show ?thesis
    unfolding hi_def lo_def m_def .
qed


lemma scanstring_escape_char:
  assumes "c < 0x110000" and "high_surrogate c \<Longrightarrow> unjoined tail"
  shows "scanstring (escape_char c @ tail) = cons_char c (scanstring tail)"
proof -
  consider (special) "c \<in> {92, 34, 8, 12, 10, 13, 9}"
    | (plain) "c \<notin> {92, 34, 8, 12, 10, 13, 9}" "32 \<le> c" "c \<le> 126"
    | (bmp) "c \<notin> {92, 34, 8, 12, 10, 13, 9}" "\<not> (32 \<le> c \<and> c \<le> 126)" "c < 0x10000"
    | (astral) "0x10000 \<le> c"
    by fastforce
  then show ?thesis
  proof cases
    case special
    then show ?thesis
      by (auto simp add: escape_char_def backslash_def)
  next
    case plain
    then show ?thesis
      by (simp add: escape_char_def)
  next
    case bmp
    from scanstring_u_escape [OF bmp(3) assms(2)] bmp show ?thesis
      by (simp add: escape_char_def)
  next
    case astral
    from scanstring_surrogates [OF astral assms(1)] astral show ?thesis
      by (simp add: escape_char_def)
  qed
qed

lemma unjoined_quote: "unjoined (34 # rest)"
  by (simp add: unjoined_def)

lemma unjoined_escape_char:
  assumes "d < 0x110000" and "\<not> low_surrogate d"
  shows "unjoined (escape_char d @ tail)"
proof -
  consider (special) "d \<in> {92, 34, 8, 12, 10, 13, 9}"
    | (plain) "d \<notin> {92, 34, 8, 12, 10, 13, 9}" "32 \<le> d" "d \<le> 126"
    | (bmp) "d \<notin> {92, 34, 8, 12, 10, 13, 9}" "\<not> (32 \<le> d \<and> d \<le> 126)" "d < 0x10000"
    | (astral) "0x10000 \<le> d"
    by fastforce
  then show ?thesis
  proof cases
    case special
    then show ?thesis
      by (auto simp add: escape_char_def unjoined_def)
  next
    case plain
    then show ?thesis
      by (simp add: escape_char_def unjoined_def)
  next
    case bmp
    then show ?thesis
      using assms(2) by (simp add: escape_char_def unjoined_def u_escape_def decode_hex4)
  next
    case astral
    define m where "m = d - 0x10000"
    define hi where "hi = 0xD800 + m div 1024 mod 1024"
    have "m div 1024 mod 1024 < 1024" by simp
    then have hi: "hi < 65536" "\<not> low_surrogate hi"
      by (simp_all add: hi_def low_surrogate_def)
    have "escape_char d @ tail =
            92 # 117 # hex4 hi @ (u_escape (0xDC00 + m mod 1024) @ tail)"
      using astral by (simp add: escape_char_def u_escape_def hi_def m_def)
    then show ?thesis
      using hi(2) by (simp add: unjoined_def decode_hex4 [OF hi(1)])
  qed
qed

lemma scanstring_escaped:
  "no_surrogate_pair x \<Longrightarrow>
   scanstring (concat (map escape_char x) @ 34 # rest) = Some (x, rest)"
proof (induction x rule: no_surrogate_pair.induct)
  case 1
  show ?case by simp
next
  case (2 c)
  then have c: "c < 0x110000" by simp
  have "scanstring (escape_char c @ 34 # rest) = cons_char c (scanstring (34 # rest))"
    by (rule scanstring_escape_char [OF c unjoined_quote])
  then show ?case
    by (simp add: cons_char_def)
next
  case (3 c d s)
  then have c: "c < 0x110000" and pair: "\<not> (high_surrogate c \<and> low_surrogate d)"
    and x: "no_surrogate_pair (d # s)"
    by simp_all
  from x have d: "d < 0x110000"
    by (cases s) simp_all
  define tail where "tail = concat (map escape_char s) @ 34 # rest"
  have u: "high_surrogate c \<Longrightarrow> unjoined (escape_char d @ tail)"
    using pair by (auto intro: unjoined_escape_char [OF d])
  have "scanstring (concat (map escape_char (c # d # s)) @ 34 # rest)
          = scanstring (escape_char c @ (escape_char d @ tail))"
    by (simp add: tail_def)
  also have "\<dots> = cons_char c (scanstring (escape_char d @ tail))"
    by (rule scanstring_escape_char [OF c u])
  also have "escape_char d @ tail = concat (map escape_char (d # s)) @ 34 # rest"
    by (simp add: tail_def)
  also have "cons_char c (scanstring (concat (map escape_char (d # s)) @ 34 # rest))
               = Some (c # d # s, rest)"
    by (simp only: "3.IH" [OF x] cons_char_def option.case prod.case)
  finally show ?case .
qed


lemma scan_once_string:
  assumes "no_surrogate_pair x"
  shows "scan_once (Suc n) (encode_basestring_ascii x @ rest) = Some (JString x, rest)"
  by (simp add: encode_basestring_ascii_def scan_atom_def scanstring_escaped [OF assms])

lemma next_char_delimiter:
  "\<not> json_ws d \<Longrightarrow> next_char (d # t) = Some (d, t)"
  by (simp add: next_char_def skip_ws_def)

lemma join_strings_starts:
  "\<exists>t. join [44, 32] (encode_basestring_ascii y # es) @ rest = 34 # t"
  by (cases es) (simp_all add: encode_basestring_ascii_def)

lemma JSONArray_strings:
  "list_all no_surrogate_pair (x # xs) \<Longrightarrow> length xs + 2 \<le> n \<Longrightarrow>
   JSONArray n
     (join [44, 32] (encode_basestring_ascii x # map encode_basestring_ascii xs) @ 93 # rest)
     vs =
     Some (JArray (vs @ JString x # map JString xs), rest)"
proof (induction xs arbitrary: x n vs)
  case Nil
  then obtain k where n: "n = Suc (Suc k)"
    by (cases n; cases "n - 1") auto
  from Nil.prems(1) have x: "no_surrogate_pair x" by simp
  have so: "scan_once (Suc k) (encode_basestring_ascii x @ 93 # rest)
              = Some (JString x, 93 # rest)"
    by (rule scan_once_string [OF x])
  have nc: "next_char (93 # rest) = Some (93, rest)"
    by (rule next_char_delimiter) (simp add: json_ws_def)
  have "JSONArray (Suc (Suc k)) (encode_basestring_ascii x @ 93 # rest) vs
          = Some (JArray (vs @ [JString x]), rest)"
    by (subst JSONArray.simps) (simp add: so nc del: JSONArray.simps scan_once.simps)
  then show ?case
    by (simp add: n del: JSONArray.simps)
next
  case (Cons y ys)
  then obtain k where n: "n = Suc (Suc k)"
    by (cases n; cases "n - 1") auto
  from Cons.prems(1) have x: "no_surrogate_pair x" and rest_ok: "list_all no_surrogate_pair (y # ys)"
    by simp_all
  from Cons.prems(2) have k: "length ys + 2 \<le> Suc k"
    by (simp add: n)
  define T where
    "T = join [44, 32] (encode_basestring_ascii y # map encode_basestring_ascii ys) @ 93 # rest"
  have IH: "JSONArray (Suc k) T (vs @ [JString x]) =
            Some (JArray ((vs @ [JString x]) @ JString y # map JString ys), rest)"
    unfolding T_def by (rule Cons.IH [OF rest_ok k])
  obtain t where t: "T = 34 # t"
    unfolding T_def using join_strings_starts by blast
  have sk: "skip_ws (32 # T) = T"
    by (simp add: t skip_ws_def json_ws_def)
  have so: "scan_once (Suc k) (encode_basestring_ascii x @ 44 # 32 # T)
              = Some (JString x, 44 # 32 # T)"
    by (rule scan_once_string [OF x])
  have nc: "next_char (44 # 32 # T) = Some (44, 32 # T)"
    by (rule next_char_delimiter) (simp add: json_ws_def)
  have step: "JSONArray (Suc (Suc k)) (encode_basestring_ascii x @ 44 # 32 # T) vs =
                JSONArray (Suc k) T (vs @ [JString x])"
    by (subst JSONArray.simps) (simp add: so nc sk del: JSONArray.simps scan_once.simps)
  have unfolded: "join [44, 32] (encode_basestring_ascii x # map encode_basestring_ascii (y # ys))
               @ 93 # rest = encode_basestring_ascii x @ 44 # 32 # T"
    by (simp add: T_def)
  show ?case
    unfolding unfolded n step IH by simp
qed

lemma length_join_strings:
  "length es \<le> length (join [44, 32] (map encode_basestring_ascii es))"
  by (induction es rule: induct_list012) (simp_all add: encode_basestring_ascii_def)

lemma json_loads_json_dumps:
  assumes "list_all no_surrogate_pair xs"
  shows "json_loads (json_dumps xs) = Some (JArray (map JString xs))"
proof (cases xs)
  case Nil
  then show ?thesis
    by (simp add: json_dumps_def json_loads_def str_def skip_ws_def json_ws_def next_char_def)
next
  case (Cons x xs')
  define body where
    "body = join [44, 32] (encode_basestring_ascii x # map encode_basestring_ascii xs')"
  have d: "json_dumps xs = 91 # body @ [93]"
    by (simp add: json_dumps_def Cons body_def)
  obtain t where t: "body @ [93] = 34 # t"
    unfolding body_def using join_strings_starts by blast
  have len: "length xs' + 2 \<le> length (91 # body @ [93])"
    using length_join_strings [of "x # xs'"] by (simp add: body_def)
  have arr: "JSONArray (length (91 # body @ [93])) (body @ [93]) []
               = Some (JArray ([] @ JString x # map JString xs'), [])"
    unfolding body_def
    by (rule JSONArray_strings) (use assms Cons len in \<open>simp_all add: body_def\<close>)
  have nc: "next_char (body @ [93]) = Some (34, t)"
    unfolding t by (rule next_char_delimiter) (simp add: json_ws_def)
  have so: "scan_once (Suc (length (91 # body @ [93]))) (91 # body @ [93])
              = Some (JArray (JString x # map JString xs'), [])"
    using arr by (simp add: nc t [symmetric] del: JSONArray.simps)
  show ?thesis
    unfolding d using so
    by (simp add: json_loads_def skip_ws_def json_ws_def Cons
        del: scan_once.simps JSONArray.simps)
qed


lemma json_dumps_shape:
  "\<exists>t. json_dumps xs = 91 # t @ [93]"
  by (cases xs) (simp_all add: json_dumps_def str_def)

lemma parse_ref_id_json_dumps:
  assumes "list_all no_surrogate_pair xs"
  shows "parse_ref_id L (JString (json_dumps xs)) = JArray (map JString xs)"
proof -
  obtain t where t: "json_dumps xs = 91 # t @ [93]"
    using json_dumps_shape by blast
  have s: "strip (json_dumps xs) = json_dumps xs"
    unfolding strip_def by (rule strip_by_noop) (simp_all add: t isspace_def)
  have b: "json_dumps xs \<noteq> is_blank"
    by (simp add: t is_blank_def str_def)
  have sw: "startswith (json_dumps xs) [91]" "endswith (json_dumps xs) [93]"
    by (simp_all add: t startswith_def endswith_def)
  show ?thesis
    using b sw
    by (simp add: parse_ref_id_def s Let_def json_loads_json_dumps [OF assms])
       (simp add: t)
qed

lemma validate_str_list_strings: "validate_str_list L (JArray (map JString xs)) = Some xs"
  by (simp add: validate_str_list_def validate_str_def list_all_iff comp_def)

text \<open>
  Claim C7, amended. A \<open>ref_id\<close> sequence written to its CSV text (\<open>json.dumps\<close> of the
  list, \<open>[]\<close> for the empty one) and read back by the validator and the field check of
  \<open>ref_id\<close> is the sequence itself, when no element holds a high surrogate right
  before a low surrogate. This holds for a sequence of every length, so for 0, 1 and 3
  elements, and for every text of any other code points, a surrogate that stands alone
  included.
\<close>

theorem ref_id_round_trip:
  assumes "list_all no_surrogate_pair xs"
  shows "parse_ref_id L (JString (format_ref_id_for_csv xs)) = JArray (map JString xs)
         \<and> validate_str_list L (parse_ref_id L (JString (format_ref_id_for_csv xs))) = Some xs"
proof -
  have "format_ref_id_for_csv xs = json_dumps xs"
    by (simp add: format_ref_id_for_csv_def json_dumps_def)
  then show ?thesis
    by (simp add: parse_ref_id_json_dumps [OF assms] validate_str_list_strings)
qed

theorem ref_id_round_trip_witness:
  "list_all no_surrogate_pair [[97], [98, 233], [0x4E2D, 34, 0x1F600]]
   \<and> format_ref_id_for_csv [[97], [98, 233], [0x4E2D, 34, 0x1F600]] =
       str ''[\"a\", \"b'' @ [92] @ str ''u00e9\", \"'' @ [92] @ str ''u4e2d'' @ [92, 34, 92]
       @ str ''ud83d'' @ [92] @ str ''ude00\"]''
   \<and> validate_str_list lib0
        (parse_ref_id lib0
           (JString (format_ref_id_for_csv [[97], [98, 233], [0x4E2D, 34, 0x1F600]])))
       = Some [[97], [98, 233], [0x4E2D, 34, 0x1F600]]
   \<and> list_all no_surrogate_pair [[0xDFFF, 0xD800]]
   \<and> validate_str_list lib0
        (parse_ref_id lib0 (JString (format_ref_id_for_csv [[0xDFFF, 0xD800]])))
       = Some [[0xDFFF, 0xD800]]
   \<and> list_all no_surrogate_pair []
   \<and> format_ref_id_for_csv [] = str ''[]''
   \<and> validate_str_list lib0 (parse_ref_id lib0 (JString (format_ref_id_for_csv [])))
       = Some []"
proof -
  have u3: "list_all no_surrogate_pair [[97], [98, 233], [0x4E2D, 34, 0x1F600]]"
    and u1: "list_all no_surrogate_pair [[0xDFFF, 0xD800]]"
    and u0: "list_all no_surrogate_pair []"
    by (simp_all add: high_surrogate_def low_surrogate_def)
  have f: "format_ref_id_for_csv [[97], [98, 233], [0x4E2D, 34, 0x1F600]] =
       str ''[\"a\", \"b'' @ [92] @ str ''u00e9\", \"'' @ [92] @ str ''u4e2d'' @ [92, 34, 92]
       @ str ''ud83d'' @ [92] @ str ''ude00\"]''"
    by (simp add: format_ref_id_for_csv_def json_dumps_def encode_basestring_ascii_def
        escape_char_def u_escape_def hex4_def hexdigit_def str_def)
  have e: "format_ref_id_for_csv [] = str ''[]''"
    by (simp add: format_ref_id_for_csv_def)
  note r3 = ref_id_round_trip [OF u3, of lib0]
  note r1 = ref_id_round_trip [OF u1, of lib0]
  note r0 = ref_id_round_trip [OF u0, of lib0]
  show ?thesis
    by (intro conjI u3 u1 u0 f e conjunct2 [OF r3] conjunct2 [OF r1] conjunct2 [OF r0])
qed

text \<open>
  The claim as stated fails: the one element of the sequence is a high surrogate and a
  low surrogate, two code points. \<open>json.dumps\<close> writes them as two \<open>\u\<close> escapes, and
  \<open>json.loads\<close> joins the two escapes into the one code point \<open>0x103FF\<close>: the sequence
  read back is not the one written.
\<close>

theorem surrogate_pair_counterexample:
  "format_ref_id_for_csv [[0xD800, 0xDFFF]] =
       str ''[\"'' @ [92] @ str ''ud800'' @ [92] @ str ''udfff\"]''
   \<and> parse_ref_id lib0 (JString (format_ref_id_for_csv [[0xD800, 0xDFFF]]))
       = JArray [JString [0x103FF]]
   \<and> validate_str_list lib0
        (parse_ref_id lib0 (JString (format_ref_id_for_csv [[0xD800, 0xDFFF]])))
       = Some [[0x103FF]]
   \<and> [[0x103FF]] \<noteq> [[0xD800, 0xDFFF :: nat]]"
proof -
  have f: "format_ref_id_for_csv [[0xD800, 0xDFFF]] =
             [91, 34, 92, 117, 100, 56, 48, 48, 92, 117, 100, 102, 102, 102, 34, 93]"
    by (simp add: format_ref_id_for_csv_def json_dumps_def encode_basestring_ascii_def
        escape_char_def u_escape_def hex4_def hexdigit_def)
  have t: "str ''[\"'' @ [92] @ str ''ud800'' @ [92] @ str ''udfff\"]'' =
             [91, 34, 92, 117, 100, 56, 48, 48, 92, 117, 100, 102, 102, 102, 34, 93]"
    by (simp add: str_def)
  have s: "strip [91, 34, 92, 117, 100, 56, 48, 48, 92, 117, 100, 102, 102, 102, 34, 93]
             = [91, 34, 92, 117, 100, 56, 48, 48, 92, 117, 100, 102, 102, 102, 34, 93]"
    by (simp add: strip_def strip_by_def isspace_def)
  have sc: "scanstring [92, 117, 100, 56, 48, 48, 92, 117, 100, 102, 102, 102, 34, 93]
              = Some ([0x103FF], [93])"
    by (simp add: hexval_def cons_char_def)
  have j: "json_loads [91, 34, 92, 117, 100, 56, 48, 48, 92, 117, 100, 102, 102, 102, 34, 93]
             = Some (JArray [JString [0x103FF]])"
    by (simp add: json_loads_def skip_ws_def json_ws_def next_char_def scan_atom_def sc
        del: scanstring.simps)
  have b: "[91, 34, 92, 117, 100, 56, 48, 48, 92, 117, 100, 102, 102, 102, 34, 93] \<noteq> is_blank"
    by (simp add: is_blank_def str_def)
  have p: "parse_ref_id lib0 (JString (format_ref_id_for_csv [[0xD800, 0xDFFF]]))
             = JArray [JString [0x103FF]]"
    using b by (simp add: f parse_ref_id_def s j startswith_def endswith_def Let_def)
  have v: "validate_str_list lib0
             (parse_ref_id lib0 (JString (format_ref_id_for_csv [[0xD800, 0xDFFF]])))
           = Some [[0x103FF]]"
    by (simp add: p validate_str_list_def validate_str_def)
  have n: "[[0x103FF]] \<noteq> [[0xD800, 0xDFFF :: nat]]"
    by simp
  have f': "format_ref_id_for_csv [[0xD800, 0xDFFF]] =
       str ''[\"'' @ [92] @ str ''ud800'' @ [92] @ str ''udfff\"]''"
    by (simp only: f t)
  show ?thesis
    by (intro conjI f' p v n)
qed


text \<open>The four rules at concrete texts: the sentinel between spaces, a JSON list, a
  bracketed text that is no JSON and is split at its comma, one quoted identifier.\<close>

theorem parse_ref_id_rules_witness:
  "strip (32 # is_blank @ [32]) = is_blank
   \<and> parse_ref_id lib0 (JString (32 # is_blank @ [32])) = JArray []
   \<and> json_loads (strip (json_dumps [[97], [98]])) = Some (JArray [JString [97], JString [98]])
   \<and> parse_ref_id lib0 (JString (json_dumps [[97], [98]])) = JArray [JString [97], JString [98]]
   \<and> json_loads (strip (str ''[a, b]'')) = None
   \<and> parse_ref_id lib0 (JString (str ''[a, b]'')) = JArray [JString (str ''[a''), JString (str ''b]'')]
   \<and> parse_ref_id lib0 (JString [32, 39, 100, 49, 39, 32]) = JArray [JString (str ''d1'')]"
proof -
  have a1: "strip (32 # is_blank @ [32]) = is_blank"
    by (simp add: strip_def strip_by_def isspace_def is_blank_def str_def)
  have r1: "parse_ref_id lib0 (JString (32 # is_blank @ [32])) = JArray []"
    using parse_ref_id_rules [of "32 # is_blank @ [32]" lib0] a1 by simp
  have d2: "json_dumps [[97], [98]] = [91, 34, 97, 34, 44, 32, 34, 98, 34, 93]"
    by (simp add: json_dumps_def encode_basestring_ascii_def escape_char_def)
  have s2: "strip [91, 34, 97, 34, 44, 32, 34, 98, 34, 93]
              = [91, 34, 97, 34, 44, 32, 34, 98, 34, 93]"
    by (simp add: strip_def strip_by_def isspace_def)
  have j2: "json_loads [91, 34, 97, 34, 44, 32, 34, 98, 34, 93]
              = Some (JArray [JString [97], JString [98]])"
    by (simp add: json_loads_def skip_ws_def json_ws_def next_char_def scan_atom_def
        cons_char_def)
  have b2: "[91, 34, 97, 34, 44, 32, 34, 98, 34, 93] \<noteq> is_blank"
    by (simp add: is_blank_def str_def)
  have r2: "parse_ref_id lib0 (JString (json_dumps [[97], [98]]))
              = JArray [JString [97], JString [98]]"
    using parse_ref_id_rules
      [of "json_dumps [[97], [98]]" lib0 "JArray [JString [97], JString [98]]"] b2
    by (simp add: d2 s2 j2 startswith_def endswith_def)
  have t3: "str ''[a, b]'' = [91, 97, 44, 32, 98, 93]"
    by (simp add: str_def)
  have s3: "strip [91, 97, 44, 32, 98, 93] = [91, 97, 44, 32, 98, 93]"
    by (simp add: strip_def strip_by_def isspace_def)
  have j3: "json_loads [91, 97, 44, 32, 98, 93] = None"
    by (simp add: json_loads_def skip_ws_def json_ws_def next_char_def scan_atom_def
        match_number_def match_int_def str_def)
  have b3: "[91, 97, 44, 32, 98, 93] \<noteq> is_blank"
    by (simp add: is_blank_def str_def)
  have r3: "parse_ref_id lib0 (JString (str ''[a, b]''))
              = JArray [JString (str ''[a''), JString (str ''b]'')]"
    using parse_ref_id_rules [of "str ''[a, b]''" lib0] b3
    by (simp add: t3 s3 j3 strip_chars_def strip_def strip_by_def isspace_def str_def)
  have s4: "strip [32, 39, 100, 49, 39, 32] = [39, 100, 49, 39]"
    by (simp add: strip_def strip_by_def isspace_def)
  have b4: "[39, 100, 49, 39] \<noteq> is_blank"
    by (simp add: is_blank_def str_def)
  have r4: "parse_ref_id lib0 (JString [32, 39, 100, 49, 39, 32]) = JArray [JString (str ''d1'')]"
    using parse_ref_id_rules [of "[32, 39, 100, 49, 39, 32]" lib0] b4
    by (simp add: s4 startswith_def strip_chars_def strip_def strip_by_def isspace_def str_def)
  have l2: "json_loads (strip (json_dumps [[97], [98]]))
              = Some (JArray [JString [97], JString [98]])"
    by (simp only: d2 s2 j2)
  have l3: "json_loads (strip (str ''[a, b]'')) = None"
    by (simp only: t3 s3 j3)
  show ?thesis
    by (intro conjI a1 r1 l2 r2 l3 r3 r4)
qed


section \<open>The batch\<close>




















section \<open>The concurrency gate\<close>















section \<open>The bound of the scanner\<close>

text \<open>
  The bound that \<open>json_loads\<close> gives the scanner is never the cause of a failure: a
  result found with any bound is found with a bound of the characters read, so with the
  length of the text. \<open>None\<close> of \<open>json_loads\<close> is a decoding error of the text.
\<close>

lemma cons_char_Some:
  "cons_char c y = Some (x, r) \<Longrightarrow> \<exists>x'. y = Some (x', r)"
  by (auto simp: cons_char_def split: option.splits)

lemma scanstring_call:
  assumes "scanstring (c # t) = Some (x, r)"
  shows "r = t \<or> (\<exists>t' x'. scanstring t' = Some (x', r) \<and> length t' \<le> length t)"
proof (cases "c = 34")
  case True
  with assms show ?thesis by simp
next
  case c34: False
  show ?thesis
  proof (cases "c = 92")
    case False
    with c34 assms have "cons_char c (scanstring t) = Some (x, r)"
      by (auto split: if_splits)
    then show ?thesis
      using cons_char_Some by blast
  next
    case True
    with c34 assms obtain esc s1 where t: "t = esc # s1"
      by (cases t) auto
    show ?thesis
    proof (cases "esc = 117")
      case False
      with True c34 t assms obtain ch where "cons_char ch (scanstring s1) = Some (x, r)"
        by (auto split: option.splits)
      then obtain x' where "scanstring s1 = Some (x', r)"
        using cons_char_Some by blast
      moreover have "length s1 \<le> length t" by (simp add: t)
      ultimately show ?thesis by blast
    next
      case u: True
      with True c34 t assms have
        "(\<exists>ch. cons_char ch (scanstring (drop 10 s1)) = Some (x, r))
         \<or> (\<exists>ch. cons_char ch (scanstring (drop 4 s1)) = Some (x, r))"
        by (auto split: option.splits if_splits)
      then obtain k x' where "scanstring (drop k s1) = Some (x', r)"
        using cons_char_Some by blast
      moreover have "length (drop k s1) \<le> length t" by (simp add: t)
      ultimately show ?thesis by blast
    qed
  qed
qed

lemma scanstring_shorter:
  "scanstring s = Some (x, r) \<Longrightarrow> length r < length s"
proof (induction "length s" arbitrary: s x rule: less_induct)
  case less
  from less.prems obtain c t where s: "s = c # t"
    by (cases s) auto
  from scanstring_call [of c t x r] less.prems s
  consider "r = t" | t' x' where "scanstring t' = Some (x', r)" "length t' \<le> length t"
    by blast
  then show ?case
  proof cases
    case 1
    then show ?thesis by (simp add: s)
  next
    case 2
    from 2(2) have "length t' < length s" by (simp add: s)
    from less.hyps [OF this 2(1)] 2(2) show ?thesis by (simp add: s)
  qed
qed


lemma scan_once_Suc:
  "scan_once (Suc k) s = Some (v, r) \<longleftrightarrow>
     (take 1 s = [123] \<and>
        (\<exists>d r1. next_char (drop 1 s) = Some (d, r1) \<and>
           ((d = 125 \<and> v = JObject [] \<and> r = r1) \<or>
            (d = 34 \<and> JSONObject k r1 [] = Some (v, r)))))
     \<or> (take 1 s = [91] \<and>
        (\<exists>d r1. next_char (drop 1 s) = Some (d, r1) \<and>
           ((d = 93 \<and> v = JArray [] \<and> r = r1) \<or>
            (d \<noteq> 93 \<and> JSONArray k (d # r1) [] = Some (v, r)))))
     \<or> (take 1 s \<noteq> [123] \<and> take 1 s \<noteq> [91] \<and> scan_atom s = Some (v, r))"
  by (auto split: option.splits)

lemma JSONArray_Suc:
  "JSONArray (Suc k) s vs = Some (v, r) \<longleftrightarrow>
     (\<exists>v1 r1 d r2. scan_once k s = Some (v1, r1) \<and> next_char r1 = Some (d, r2) \<and>
        ((d = 93 \<and> v = JArray (vs @ [v1]) \<and> r = r2) \<or>
         (d = 44 \<and> JSONArray k (skip_ws r2) (vs @ [v1]) = Some (v, r))))"
  by (auto simp del: scan_once.simps split: option.splits)

lemma JSONObject_Suc:
  "JSONObject (Suc k) s ms = Some (v, r) \<longleftrightarrow>
     (\<exists>key r0 r1 v1 r2 d r3.
        scanstring s = Some (key, r0) \<and> expect 58 r0 = Some r1 \<and>
        scan_once k (skip_ws r1) = Some (v1, r2) \<and> next_char r2 = Some (d, r3) \<and>
        ((d = 125 \<and> v = JObject (ms @ [(key, v1)]) \<and> r = r3) \<or>
         (d = 44 \<and> (\<exists>r4. expect 34 r3 = Some r4 \<and>
                        JSONObject k r4 (ms @ [(key, v1)]) = Some (v, r)))))"
  by (auto simp del: scan_once.simps split: option.splits)


lemma fuel_mono_all:
  "(\<forall>s v r m. scan_once n s = Some (v, r) \<longrightarrow> n \<le> m \<longrightarrow> scan_once m s = Some (v, r))
   \<and> (\<forall>s vs v r m. JSONArray n s vs = Some (v, r) \<longrightarrow> n \<le> m \<longrightarrow>
          JSONArray m s vs = Some (v, r))
   \<and> (\<forall>s ms v r m. JSONObject n s ms = Some (v, r) \<longrightarrow> n \<le> m \<longrightarrow>
          JSONObject m s ms = Some (v, r))"
proof (induction n)
  case 0
  show ?case by simp
next
  case (Suc n)
  then have so: "\<And>s v r m. scan_once n s = Some (v, r) \<Longrightarrow> n \<le> m \<Longrightarrow>
                   scan_once m s = Some (v, r)"
    and ja: "\<And>s vs v r m. JSONArray n s vs = Some (v, r) \<Longrightarrow> n \<le> m \<Longrightarrow>
                   JSONArray m s vs = Some (v, r)"
    and jo: "\<And>s ms v r m. JSONObject n s ms = Some (v, r) \<Longrightarrow> n \<le> m \<Longrightarrow>
                   JSONObject m s ms = Some (v, r)"
    by blast+
  show ?case
  proof (intro conjI allI impI)
    fix s v r m
    assume a: "scan_once (Suc n) s = Some (v, r)" and le: "Suc n \<le> m"
    from le obtain m' where m: "m = Suc m'" "n \<le> m'" by (cases m) auto
    from a show "scan_once m s = Some (v, r)"
      unfolding m(1) scan_once_Suc using ja [OF _ m(2)] jo [OF _ m(2)] by blast
  next
    fix s vs v r m
    assume a: "JSONArray (Suc n) s vs = Some (v, r)" and le: "Suc n \<le> m"
    from le obtain m' where m: "m = Suc m'" "n \<le> m'" by (cases m) auto
    from a show "JSONArray m s vs = Some (v, r)"
      unfolding m(1) JSONArray_Suc using so [OF _ m(2)] ja [OF _ m(2)] by blast
  next
    fix s ms v r m
    assume a: "JSONObject (Suc n) s ms = Some (v, r)" and le: "Suc n \<le> m"
    from le obtain m' where m: "m = Suc m'" "n \<le> m'" by (cases m) auto
    from a show "JSONObject m s ms = Some (v, r)"
      unfolding m(1) JSONObject_Suc using so [OF _ m(2)] jo [OF _ m(2)] by blast
  qed
qed

lemma skip_ws_length: "length (skip_ws s) \<le> length s"
  by (simp add: skip_ws_def length_dropWhile_le)

lemma next_char_shorter: "next_char s = Some (d, r) \<Longrightarrow> length r < length s"
proof -
  assume "next_char s = Some (d, r)"
  then have "skip_ws s = d # r"
    by (auto simp: next_char_def split: list.splits)
  with skip_ws_length [of s] show ?thesis by simp
qed

lemma expect_shorter: "expect c s = Some r \<Longrightarrow> length r < length s"
proof -
  assume "expect c s = Some r"
  then have "skip_ws s = c # r"
    by (auto simp: expect_def split: list.splits if_splits)
  with skip_ws_length [of s] show ?thesis by simp
qed

lemma match_int_shorter:
  assumes "match_int s = Some (i, s1)"
  shows "length s1 < length s"
proof -
  define t where "t = drop (length (if take 1 s = [45] then [45] else [] :: pystr)) s"
  have lt: "length t \<le> length s"
    by (simp add: t_def)
  from assms obtain d s2 where t: "t = d # s2"
    and s1: "s1 = s2 \<or> s1 = dropWhile is_digit s2"
    unfolding match_int_def Let_def t_def [symmetric]
    by (auto split: list.splits if_splits)
  from s1 have "length s1 \<le> length s2"
    by (auto simp: length_dropWhile_le)
  with t lt show ?thesis by simp
qed

lemma match_frac_shorter: "match_frac s = (f, r) \<Longrightarrow> length r \<le> length s"
proof -
  assume "match_frac s = (f, r)"
  then have "r = s \<or> r = dropWhile is_digit (drop 1 s)"
    by (auto simp: match_frac_def split: if_splits)
  moreover have "length (dropWhile is_digit (drop 1 s)) \<le> length (drop 1 s)"
    by (rule length_dropWhile_le)
  ultimately show ?thesis by auto
qed

lemma match_exp_shorter: "match_exp s = (e, r) \<Longrightarrow> length r \<le> length s"
proof -
  assume "match_exp s = (e, r)"
  then have "r = s \<or> (\<exists>k. r = dropWhile is_digit (drop k (drop 1 s)))"
    by (auto simp: match_exp_def Let_def split: if_splits)
  moreover have "length (dropWhile is_digit (drop k (drop 1 s))) \<le> length s" for k
  proof -
    have "length (dropWhile is_digit (drop k (drop 1 s))) \<le> length (drop k (drop 1 s))"
      by (rule length_dropWhile_le)
    also have "\<dots> \<le> length s" by simp
    finally show ?thesis .
  qed
  ultimately show ?thesis
    by blast
qed

lemma match_number_shorter: "match_number s = Some (lit, r) \<Longrightarrow> length r < length s"
proof -
  assume a: "match_number s = Some (lit, r)"
  then obtain i s1 f s2 e where
    i: "match_int s = Some (i, s1)" and f: "match_frac s1 = (f, s2)"
    and e: "match_exp s2 = (e, r)"
    by (auto simp: match_number_def split: option.splits prod.splits)
  from match_int_shorter [OF i] match_frac_shorter [OF f] match_exp_shorter [OF e]
  show ?thesis by simp
qed


lemma take_eq_length: "take k s = t \<Longrightarrow> length t \<le> length s"
  by (metis length_take min.cobounded1)

lemma scan_atom_shorter: "scan_atom s = Some (v, r) \<Longrightarrow> length r < length s"
proof -
  assume a: "scan_atom s = Some (v, r)"
  show ?thesis
  proof (cases "take 1 s = [34]")
    case True
    with a obtain x where "scanstring (drop 1 s) = Some (x, r)"
      by (auto simp: scan_atom_def split: option.splits)
    from scanstring_shorter [OF this] show ?thesis by simp
  next
    case False
    with a show ?thesis
      unfolding scan_atom_def
      by (auto simp: str_def split: if_splits option.splits
          dest!: take_eq_length match_number_shorter)
  qed
qed


lemma scan_once_mono:
  "scan_once n s = Some (v, r) \<Longrightarrow> n \<le> m \<Longrightarrow> scan_once m s = Some (v, r)"
  using fuel_mono_all [of n] by blast

lemma JSONArray_mono:
  "JSONArray n s vs = Some (v, r) \<Longrightarrow> n \<le> m \<Longrightarrow> JSONArray m s vs = Some (v, r)"
  using fuel_mono_all [of n] by blast

lemma JSONObject_mono:
  "JSONObject n s ms = Some (v, r) \<Longrightarrow> n \<le> m \<Longrightarrow> JSONObject m s ms = Some (v, r)"
  using fuel_mono_all [of n] by blast

lemma fuel_exact_all:
  "(\<forall>s v r. scan_once n s = Some (v, r) \<longrightarrow>
      length r < length s \<and> scan_once (length s - length r) s = Some (v, r))
   \<and> (\<forall>s vs v r. JSONArray n s vs = Some (v, r) \<longrightarrow>
      length r < length s \<and> JSONArray (length s - length r) s vs = Some (v, r))
   \<and> (\<forall>s ms v r. JSONObject n s ms = Some (v, r) \<longrightarrow>
      length r < length s \<and> JSONObject (length s - length r) s ms = Some (v, r))"
proof (induction n)
  case 0
  show ?case by simp
next
  case (Suc n)
  then have so: "\<And>s v r. scan_once n s = Some (v, r) \<Longrightarrow>
                   length r < length s \<and> scan_once (length s - length r) s = Some (v, r)"
    and ja: "\<And>s vs v r. JSONArray n s vs = Some (v, r) \<Longrightarrow>
                   length r < length s \<and> JSONArray (length s - length r) s vs = Some (v, r)"
    and jo: "\<And>s ms v r. JSONObject n s ms = Some (v, r) \<Longrightarrow>
                   length r < length s \<and> JSONObject (length s - length r) s ms = Some (v, r)"
    by blast+
  have p1: "\<forall>s v r. scan_once (Suc n) s = Some (v, r) \<longrightarrow>
      length r < length s \<and> scan_once (length s - length r) s = Some (v, r)"
  proof (intro allI impI)
    fix s v r
    assume a: "scan_once (Suc n) s = Some (v, r)"
    have goal: "length r < length s \<and> scan_once (length s - length r) s = Some (v, r)"
      if lt: "length r + k < length s" and ok: "scan_once (Suc k) s = Some (v, r)" for k
    proof -
      from lt have "Suc k \<le> length s - length r" by simp
      from scan_once_mono [OF ok this] lt show ?thesis by simp
    qed
    from a consider
        (empty_obj) r1 where "take 1 s = [123]" "next_char (drop 1 s) = Some (125, r1)"
          "v = JObject []" "r = r1"
      | (obj) r1 where "take 1 s = [123]" "next_char (drop 1 s) = Some (34, r1)"
          "JSONObject n r1 [] = Some (v, r)"
      | (empty_arr) r1 where "take 1 s = [91]" "next_char (drop 1 s) = Some (93, r1)"
          "v = JArray []" "r = r1"
      | (arr) d r1 where "take 1 s = [91]" "next_char (drop 1 s) = Some (d, r1)" "d \<noteq> 93"
          "JSONArray n (d # r1) [] = Some (v, r)"
      | (atom) "take 1 s \<noteq> [123]" "take 1 s \<noteq> [91]" "scan_atom s = Some (v, r)"
      unfolding scan_once_Suc by blast
    then show "length r < length s \<and> scan_once (length s - length r) s = Some (v, r)"
    proof cases
      case empty_obj
      from next_char_shorter [OF empty_obj(2)] have "length r + 0 < length s"
        using empty_obj(4) by (cases s) auto
      moreover have "scan_once (Suc 0) s = Some (v, r)"
        unfolding scan_once_Suc using empty_obj by blast
      ultimately show ?thesis by (rule goal)
    next
      case obj
      from next_char_shorter [OF obj(2)] have l1: "length r1 < length s - 1" by simp
      from jo [OF obj(3)] have l2: "length r < length r1"
        and ex: "JSONObject (length r1 - length r) r1 [] = Some (v, r)" by blast+
      have "length r + (length r1 - length r) < length s"
        using l1 l2 by simp
      moreover have "scan_once (Suc (length r1 - length r)) s = Some (v, r)"
        unfolding scan_once_Suc using obj(1,2) ex by blast
      ultimately show ?thesis by (rule goal)
    next
      case empty_arr
      from next_char_shorter [OF empty_arr(2)] have "length r + 0 < length s"
        using empty_arr(4) by (cases s) auto
      moreover have "scan_once (Suc 0) s = Some (v, r)"
        unfolding scan_once_Suc using empty_arr by blast
      ultimately show ?thesis by (rule goal)
    next
      case arr
      from next_char_shorter [OF arr(2)] have l1: "length (d # r1) < length s" by simp
      from ja [OF arr(4)] have l2: "length r < length (d # r1)"
        and ex: "JSONArray (length (d # r1) - length r) (d # r1) [] = Some (v, r)" by blast+
      have "length r + (length (d # r1) - length r) < length s"
        using l1 l2 by simp
      moreover have "scan_once (Suc (length (d # r1) - length r)) s = Some (v, r)"
        unfolding scan_once_Suc using arr(1,2,3) ex by blast
      ultimately show ?thesis by (rule goal)
    next
      case atom
      from scan_atom_shorter [OF atom(3)] have "length r + 0 < length s" by simp
      moreover have "scan_once (Suc 0) s = Some (v, r)"
        unfolding scan_once_Suc using atom by blast
      ultimately show ?thesis by (rule goal)
    qed
  qed
  have p2: "\<forall>s vs v r. JSONArray (Suc n) s vs = Some (v, r) \<longrightarrow>
      length r < length s \<and> JSONArray (length s - length r) s vs = Some (v, r)"
  proof (intro allI impI)
    fix s vs v r
    assume a: "JSONArray (Suc n) s vs = Some (v, r)"
    have goal: "length r < length s \<and> JSONArray (length s - length r) s vs = Some (v, r)"
      if lt: "length r + k < length s" and ok: "JSONArray (Suc k) s vs = Some (v, r)" for k
    proof -
      from lt have "Suc k \<le> length s - length r" by simp
      from JSONArray_mono [OF ok this] lt show ?thesis by simp
    qed
    from a obtain v1 r1 d r2 where
      item: "scan_once n s = Some (v1, r1)" and nc: "next_char r1 = Some (d, r2)"
      and rest: "(d = 93 \<and> v = JArray (vs @ [v1]) \<and> r = r2) \<or>
         (d = 44 \<and> JSONArray n (skip_ws r2) (vs @ [v1]) = Some (v, r))"
      unfolding JSONArray_Suc by blast
    from so [OF item] have l1: "length r1 < length s"
      and ex1: "scan_once (length s - length r1) s = Some (v1, r1)" by blast+
    from next_char_shorter [OF nc] have l2: "length r2 < length r1" .
    from rest show "length r < length s \<and> JSONArray (length s - length r) s vs = Some (v, r)"
    proof
      assume e: "d = 93 \<and> v = JArray (vs @ [v1]) \<and> r = r2"
      have "length r + (length s - length r1) < length s"
        using e l1 l2 by simp
      moreover have "JSONArray (Suc (length s - length r1)) s vs = Some (v, r)"
        unfolding JSONArray_Suc using ex1 nc e by blast
      ultimately show ?thesis by (rule goal)
    next
      assume c: "d = 44 \<and> JSONArray n (skip_ws r2) (vs @ [v1]) = Some (v, r)"
      with ja have l3: "length r < length (skip_ws r2)"
        and ex2: "JSONArray (length (skip_ws r2) - length r) (skip_ws r2) (vs @ [v1])
                    = Some (v, r)" by blast+
      define k where "k = max (length s - length r1) (length (skip_ws r2) - length r)"
      have i1: "scan_once k s = Some (v1, r1)"
        by (rule scan_once_mono [OF ex1]) (simp add: k_def)
      have i2: "JSONArray k (skip_ws r2) (vs @ [v1]) = Some (v, r)"
        by (rule JSONArray_mono [OF ex2]) (simp add: k_def)
      have "length r + k < length s"
        using l1 l2 l3 skip_ws_length [of r2] by (simp add: k_def)
      moreover have "JSONArray (Suc k) s vs = Some (v, r)"
        unfolding JSONArray_Suc using i1 nc c i2 by blast
      ultimately show ?thesis by (rule goal)
    qed
  qed
  have p3: "\<forall>s ms v r. JSONObject (Suc n) s ms = Some (v, r) \<longrightarrow>
      length r < length s \<and> JSONObject (length s - length r) s ms = Some (v, r)"
  proof (intro allI impI)
    fix s ms v r
    assume a: "JSONObject (Suc n) s ms = Some (v, r)"
    have goal: "length r < length s \<and> JSONObject (length s - length r) s ms = Some (v, r)"
      if lt: "length r + k < length s" and ok: "JSONObject (Suc k) s ms = Some (v, r)" for k
    proof -
      from lt have "Suc k \<le> length s - length r" by simp
      from JSONObject_mono [OF ok this] lt show ?thesis by simp
    qed
    from a obtain key r0 r1 v1 r2 d r3 where
      k: "scanstring s = Some (key, r0)" and colon: "expect 58 r0 = Some r1"
      and item: "scan_once n (skip_ws r1) = Some (v1, r2)"
      and nc: "next_char r2 = Some (d, r3)"
      and rest: "(d = 125 \<and> v = JObject (ms @ [(key, v1)]) \<and> r = r3) \<or>
         (d = 44 \<and> (\<exists>r4. expect 34 r3 = Some r4 \<and>
                        JSONObject n r4 (ms @ [(key, v1)]) = Some (v, r)))"
      unfolding JSONObject_Suc by blast
    from scanstring_shorter [OF k] have l0: "length r0 < length s" .
    from expect_shorter [OF colon] have l1: "length r1 < length r0" .
    from so [OF item] have l2: "length r2 < length (skip_ws r1)"
      and ex1: "scan_once (length (skip_ws r1) - length r2) (skip_ws r1) = Some (v1, r2)"
      by blast+
    from next_char_shorter [OF nc] have l3: "length r3 < length r2" .
    note lw = skip_ws_length [of r1]
    from rest show "length r < length s \<and> JSONObject (length s - length r) s ms = Some (v, r)"
    proof
      assume e: "d = 125 \<and> v = JObject (ms @ [(key, v1)]) \<and> r = r3"
      have "length r + (length (skip_ws r1) - length r2) < length s"
        using e l0 l1 l2 l3 lw by simp
      moreover have "JSONObject (Suc (length (skip_ws r1) - length r2)) s ms = Some (v, r)"
        unfolding JSONObject_Suc using k colon ex1 nc e by blast
      ultimately show ?thesis by (rule goal)
    next
      assume "d = 44 \<and> (\<exists>r4. expect 34 r3 = Some r4 \<and>
                        JSONObject n r4 (ms @ [(key, v1)]) = Some (v, r))"
      then obtain r4 where d: "d = 44" and q: "expect 34 r3 = Some r4"
        and more: "JSONObject n r4 (ms @ [(key, v1)]) = Some (v, r)" by blast
      from expect_shorter [OF q] have l4: "length r4 < length r3" .
      from jo [OF more] have l5: "length r < length r4"
        and ex2: "JSONObject (length r4 - length r) r4 (ms @ [(key, v1)]) = Some (v, r)"
        by blast+
      define f where "f = max (length (skip_ws r1) - length r2) (length r4 - length r)"
      have i1: "scan_once f (skip_ws r1) = Some (v1, r2)"
        by (rule scan_once_mono [OF ex1]) (simp add: f_def)
      have i2: "JSONObject f r4 (ms @ [(key, v1)]) = Some (v, r)"
        by (rule JSONObject_mono [OF ex2]) (simp add: f_def)
      have "length r + f < length s"
        using l0 l1 l2 l3 l4 l5 lw by (simp add: f_def)
      moreover have "JSONObject (Suc f) s ms = Some (v, r)"
        unfolding JSONObject_Suc using k colon i1 nc d q i2 by blast
      ultimately show ?thesis by (rule goal)
    qed
  qed
  from p1 p2 p3 show ?case by (intro conjI)
qed

lemma scan_once_fuel_enough:
  assumes "scan_once n s = Some (v, r)"
  shows "scan_once (Suc (length s)) s = Some (v, r)"
proof -
  from fuel_exact_all [of n] assms
  have "scan_once (length s - length r) s = Some (v, r)" by blast
  then show ?thesis
    by (rule scan_once_mono) simp
qed


lemma json_loads_any_fuel:
  assumes "take 1 s \<noteq> [0xFEFF]" and "scan_once n (skip_ws s) = Some (v, r)"
    and "skip_ws r = []"
  shows "json_loads s = Some v"
proof -
  have "scan_once (Suc (length (skip_ws s))) (skip_ws s) = Some (v, r)"
    by (rule scan_once_fuel_enough [OF assms(2)])
  then have "scan_once (Suc (length s)) (skip_ws s) = Some (v, r)"
    by (rule scan_once_mono) (simp add: skip_ws_length)
  with assms(1,3) show ?thesis
    by (simp add: json_loads_def del: scan_once.simps)
qed

end
